theory Spec2Isabelle
  imports Complex_Main "HOL-Library.Sublist"
begin

section \<open>Python values and strings\<close>

text \<open>
  The program is \<^verbatim>\<open>Ansible-Azure/azure_inventory_mde.py\<close>. A row of a resource-graph result
  (a virtual machine, a network interface) is a JSON object whose fields are strings or null:
  the two queries project every field with \<^verbatim>\<open>tostring\<close> or take a string property. A field
  value of a row is therefore a \<open>pyval\<close>, and a row is a Python dict from key to \<open>pyval\<close>; a
  key that is missing is \<open>None\<close> of the map, a key that holds null is \<open>Some PyNone\<close>. What
  the security-machines endpoint returns is read as an arbitrary JSON value (type \<open>json\<close>
  below). Strings are lists of code points below 256.
\<close>

datatype pyval = PyNone | PyStr string

type_synonym pydict = "string \<rightharpoonup> pyval"

datatype py_error = KeyError | OSError | UnicodeDecodeError | TypeError | AttributeError

text \<open>Truthiness: \<^verbatim>\<open>None\<close> and the empty string are false.\<close>

fun truthy :: "pyval \<Rightarrow> bool" where
  "truthy PyNone = False"
| "truthy (PyStr s) = (s \<noteq> [])"

text \<open>\<^verbatim>\<open>a or b\<close>\<close>

definition py_or :: "pyval \<Rightarrow> pyval \<Rightarrow> pyval" where
  "py_or a b = (if truthy a then a else b)"

text \<open>\<^verbatim>\<open>(x or "")\<close>, which is always a string.\<close>

fun or_empty :: "pyval \<Rightarrow> string" where
  "or_empty PyNone = []"
| "or_empty (PyStr s) = s"

text \<open>\<^verbatim>\<open>d.get(k)\<close> and \<^verbatim>\<open>d[k]\<close>\<close>

definition dict_get :: "pydict \<Rightarrow> string \<Rightarrow> pyval" where
  "dict_get d k = (case d k of None \<Rightarrow> PyNone | Some v \<Rightarrow> v)"

definition dict_index :: "pydict \<Rightarrow> string \<Rightarrow> py_error + pyval" where
  "dict_index d k = (case d k of None \<Rightarrow> Inl KeyError | Some v \<Rightarrow> Inr v)"

text \<open>
  \<^verbatim>\<open>str.isspace\<close>, \<^verbatim>\<open>str.strip()\<close> and \<^verbatim>\<open>str.lower()\<close> on code points below 256: the white
  space there is 9 to 13, 28 to 32, 133 and 160; the upper-case letters are A to Z and
  192 to 222 without 215, each 32 below its lower-case letter.
\<close>

definition is_space :: "char \<Rightarrow> bool" where
  "is_space c = (let n = (of_char c :: nat) in
     (9 \<le> n \<and> n \<le> 13) \<or> (28 \<le> n \<and> n \<le> 32) \<or> n = 133 \<or> n = 160)"

definition strip :: "string \<Rightarrow> string" where
  "strip s = rev (dropWhile is_space (rev (dropWhile is_space s)))"

definition lower_char :: "char \<Rightarrow> char" where
  "lower_char c = (let n = (of_char c :: nat) in
     if (65 \<le> n \<and> n \<le> 90) \<or> (192 \<le> n \<and> n \<le> 222 \<and> n \<noteq> 215)
     then char_of (n + 32) else c)"

definition lower :: "string \<Rightarrow> string" where
  "lower s = map lower_char s"

text \<open>\<^verbatim>\<open>s.split(".")[0]\<close>: the text before the first dot, all of \<open>s\<close> when it has none.\<close>

definition split_dot_0 :: "string \<Rightarrow> string" where
  "split_dot_0 s = takeWhile (\<lambda>c. c \<noteq> CHR ''.'') s"

text \<open>\<^verbatim>\<open>str(n)\<close> for an integer.\<close>

definition digit_char :: "nat \<Rightarrow> char" where
  "digit_char d = char_of (48 + d)"

function str_nat :: "nat \<Rightarrow> string" where
  "str_nat n = (if n < 10 then [digit_char n] else str_nat (n div 10) @ [digit_char (n mod 10)])"
  by pat_completeness auto
termination
  by (relation "measure (\<lambda>n. n)") auto

definition str_int :: "int \<Rightarrow> string" where
  "str_int k = (if k < 0 then CHR ''-'' # str_nat (nat (- k)) else str_nat (nat k))"

section \<open>Tuning knobs\<close>

definition CACHE_TTL_SECONDS :: real where
  "CACHE_TTL_SECONDS = 300"

definition GRAPH_PAGE_SIZE :: int where
  "GRAPH_PAGE_SIZE = 1000"

definition AZ_TIMEOUT_SECONDS :: int where
  "AZ_TIMEOUT_SECONDS = 30"

section \<open>The command executor\<close>

text \<open>
  By the contract of the command executor, \<^verbatim>\<open>subprocess.run\<close> either raises
  \<^verbatim>\<open>TimeoutExpired\<close> or returns a completed process, of which the program reads the return
  code and the standard output (a missing \<^verbatim>\<open>az\<close> binary is outside that contract and outside
  this model, and so is an argument string that holds a NUL character, which
  \<^verbatim>\<open>subprocess.run\<close> refuses). The outside world is the
  sequence \<open>run\<close> of these outcomes, one for each call in the order the calls are made; the
  calls made so far (argument vector and timeout) are the state \<open>calls\<close>, so the next call
  receives \<open>run (length calls)\<close>.
\<close>

datatype proc_result = TimeoutExpired | CompletedProcess int string

type_synonym call = "string list \<times> int"

definition az :: "(nat \<Rightarrow> proc_result) \<Rightarrow> call list \<Rightarrow> string list \<Rightarrow> int \<Rightarrow> proc_result \<times> call list" where
  "az run calls cmd timeout = (run (length calls), calls @ [(''az'' # cmd, timeout)])"

section \<open>The freshness cache\<close>

text \<open>
  The cache file as the three calls of \<^verbatim>\<open>load_cache_if_fresh\<close> see it: what
  \<^verbatim>\<open>os.path.exists\<close> returns, and what \<^verbatim>\<open>os.path.getmtime\<close> and opening and reading the file
  return or raise. Times are real numbers of seconds.
\<close>

record cache_fs =
  path_exists :: bool
  getmtime :: "py_error + real"
  read_text :: "py_error + string"

text \<open>The body of the \<^verbatim>\<open>try\<close> block; \<open>Inr None\<close> is falling through to \<^verbatim>\<open>return None\<close>.\<close>

definition load_cache_try :: "real \<Rightarrow> cache_fs \<Rightarrow> py_error + string option" where
  "load_cache_try now fs =
     (if path_exists fs then
        (case getmtime fs of
           Inl e \<Rightarrow> Inl e
         | Inr mtime \<Rightarrow>
             if now - mtime < CACHE_TTL_SECONDS then
               (case read_text fs of Inl e \<Rightarrow> Inl e | Inr s \<Rightarrow> Inr (Some s))
             else Inr None)
      else Inr None)"

definition load_cache_if_fresh :: "real \<Rightarrow> cache_fs \<Rightarrow> py_error + string option" where
  "load_cache_if_fresh now fs =
     (case load_cache_try now fs of Inl e \<Rightarrow> Inr None | Inr r \<Rightarrow> Inr r)"

text \<open>
  What the file system does to a write: opening the file for writing raises and leaves it as
  it was; or the file is opened (and so truncated) and the write raises after \<open>partial\<close>
  has reached the file; or the whole serialisation is written. \<open>t\<close> is the modification time
  the file gets.
\<close>

datatype save_io = OpenRaises py_error | DumpRaises py_error string | Written

definition save_cache_try :: "save_io \<Rightarrow> real \<Rightarrow> ('d \<Rightarrow> string) \<Rightarrow> 'd \<Rightarrow> cache_fs \<Rightarrow> cache_fs \<times> (py_error + unit)" where
  "save_cache_try io t json_dump payload fs =
     (case io of
        OpenRaises e \<Rightarrow> (fs, Inl e)
      | DumpRaises e partial \<Rightarrow>
          (\<lparr>path_exists = True, getmtime = Inr t, read_text = Inr partial\<rparr>, Inl e)
      | Written \<Rightarrow>
          (\<lparr>path_exists = True, getmtime = Inr t, read_text = Inr (json_dump payload)\<rparr>, Inr ()))"

definition save_cache :: "save_io \<Rightarrow> real \<Rightarrow> ('d \<Rightarrow> string) \<Rightarrow> 'd \<Rightarrow> cache_fs \<Rightarrow> cache_fs \<times> (py_error + unit)" where
  "save_cache io t json_dump payload fs =
     (case save_cache_try io t json_dump payload fs of
        (fs', Inl e) \<Rightarrow> (fs', Inr ())
      | (fs', Inr u) \<Rightarrow> (fs', Inr u))"

section \<open>The paginated query client\<close>

text \<open>
  What \<^verbatim>\<open>json.loads\<close> makes of the output of a resource-graph call: \<open>None\<close> where it raises
  \<^verbatim>\<open>JSONDecodeError\<close>; \<open>GraphNotObject\<close> for a JSON value that is not an object (an array, a
  string, a number, \<^verbatim>\<open>true\<close>, \<^verbatim>\<open>false\<close>, \<^verbatim>\<open>null\<close>), on which \<^verbatim>\<open>payload.get\<close> raises
  \<^verbatim>\<open>AttributeError\<close>; and an object, read by the three keys the client reads: \<open>get_data\<close> is
  \<^verbatim>\<open>payload.get("data")\<close> (\<open>None\<close> when the key is missing or null, otherwise the array of
  rows), \<open>get_skipToken\<close> and \<open>get_skip_token\<close> are \<^verbatim>\<open>payload.get("skipToken")\<close> and
  \<^verbatim>\<open>payload.get("skip_token")\<close>, a string or null.
\<close>

record graph_payload =
  get_data :: "pydict list option"
  get_skipToken :: pyval
  get_skip_token :: pyval

datatype graph_json = GraphNotObject | GraphObject graph_payload

definition graph_cmd :: "string \<Rightarrow> int \<Rightarrow> pyval \<Rightarrow> string list" where
  "graph_cmd query page_size skip_token =
     [''graph'', ''query'', ''-q'', query, ''--first'', str_int page_size, ''-o'', ''json'']
     @ (if truthy skip_token then [''--skip-token'', or_empty skip_token] else [])"

text \<open>
  The \<^verbatim>\<open>while True:\<close> loop. The result is what the function returns (\<open>Inr\<close>) or the exception
  that leaves it (\<open>Inl\<close>), together with the calls made; \<open>None\<close> is a loop that never ends.
\<close>

partial_function (option) graph_query_loop ::
  "(nat \<Rightarrow> proc_result) \<Rightarrow> (string \<Rightarrow> graph_json option) \<Rightarrow> string \<Rightarrow> int \<Rightarrow>
   pydict list \<Rightarrow> pyval \<Rightarrow> call list \<Rightarrow> ((py_error + pydict list) \<times> call list) option" where
  "graph_query_loop run json_loads query page_size results skip_token calls =
     (case az run calls (graph_cmd query page_size skip_token) AZ_TIMEOUT_SECONDS of
        (TimeoutExpired, calls') \<Rightarrow> Some (Inr [], calls')
      | (CompletedProcess returncode stdout, calls') \<Rightarrow>
          if returncode \<noteq> 0 \<or> strip stdout = [] then Some (Inr [], calls')
          else
            (case json_loads stdout of
               None \<Rightarrow> Some (Inr [], calls')
             | Some GraphNotObject \<Rightarrow> Some (Inl AttributeError, calls')
             | Some (GraphObject payload) \<Rightarrow>
                 let data = (case get_data payload of None \<Rightarrow> [] | Some d \<Rightarrow> d);
                     results' = results @ data;
                     skip_token' = py_or (py_or (get_skipToken payload) (get_skip_token payload)) PyNone
                 in if \<not> truthy skip_token' then Some (Inr results', calls')
                    else graph_query_loop run json_loads query page_size results' skip_token' calls'))"

definition graph_query_all ::
  "(nat \<Rightarrow> proc_result) \<Rightarrow> (string \<Rightarrow> graph_json option) \<Rightarrow> call list \<Rightarrow> string \<Rightarrow> int \<Rightarrow>
   ((py_error + pydict list) \<times> call list) option" where
  "graph_query_all run json_loads calls query page_size =
     graph_query_loop run json_loads query page_size [] PyNone calls"

section \<open>The onboarding-key resolver\<close>

text \<open>
  A decoded response of the security-machines endpoint is any JSON value. \<open>JNum\<close> is a number
  by its value; \<open>JObject\<close> lists the items of the dict in order, each key once.
\<close>

datatype json =
  JNull | JBool bool | JNum real | JStr string | JArray "json list" | JObject "(string \<times> json) list"

text \<open>Truthiness: null, \<^verbatim>\<open>false\<close>, zero and the empty string, array and object are false.\<close>

fun json_truthy :: "json \<Rightarrow> bool" where
  "json_truthy JNull = False"
| "json_truthy (JBool b) = b"
| "json_truthy (JNum x) = (x \<noteq> 0)"
| "json_truthy (JStr s) = (s \<noteq> [])"
| "json_truthy (JArray xs) = (xs \<noteq> [])"
| "json_truthy (JObject kvs) = (kvs \<noteq> [])"

text \<open>\<^verbatim>\<open>d.get(k, default)\<close> on the items of a dict.\<close>

definition items_get :: "(string \<times> json) list \<Rightarrow> string \<Rightarrow> json \<Rightarrow> json" where
  "items_get kvs k dflt = (case map_of kvs k of None \<Rightarrow> dflt | Some v \<Rightarrow> v)"

text \<open>
  \<^verbatim>\<open>for m in x\<close>: an array gives its elements, a string its characters, a dict its keys; null,
  a boolean and a number are not iterable.
\<close>

fun json_iter :: "json \<Rightarrow> py_error + json list" where
  "json_iter (JArray xs) = Inr xs"
| "json_iter (JStr s) = Inr (map (\<lambda>c. JStr [c]) s)"
| "json_iter (JObject kvs) = Inr (map (\<lambda>kv. JStr (fst kv)) kvs)"
| "json_iter JNull = Inl TypeError"
| "json_iter (JBool b) = Inl TypeError"
| "json_iter (JNum x) = Inl TypeError"

text \<open>\<^verbatim>\<open>x.lower()\<close> and \<^verbatim>\<open>x.split(".")[0]\<close>: only a string has these methods.\<close>

fun json_lower :: "json \<Rightarrow> py_error + string" where
  "json_lower (JStr s) = Inr (lower s)"
| "json_lower JNull = Inl AttributeError"
| "json_lower (JBool b) = Inl AttributeError"
| "json_lower (JNum x) = Inl AttributeError"
| "json_lower (JArray xs) = Inl AttributeError"
| "json_lower (JObject kvs) = Inl AttributeError"

fun json_split_dot_0 :: "json \<Rightarrow> py_error + string" where
  "json_split_dot_0 (JStr s) = Inr (split_dot_0 s)"
| "json_split_dot_0 JNull = Inl AttributeError"
| "json_split_dot_0 (JBool b) = Inl AttributeError"
| "json_split_dot_0 (JNum x) = Inl AttributeError"
| "json_split_dot_0 (JArray xs) = Inl AttributeError"
| "json_split_dot_0 (JObject kvs) = Inl AttributeError"

text \<open>
  \<^verbatim>\<open>graph_api_get\<close>. The URL is the value the loop holds in \<^verbatim>\<open>url\<close>; \<^verbatim>\<open>subprocess.run\<close> raises
  \<^verbatim>\<open>TypeError\<close> for an argument that is not a string, before any process is started, and only
  \<^verbatim>\<open>TimeoutExpired\<close> is caught. \<open>Inr None\<close> is the return value \<^verbatim>\<open>None\<close>.
\<close>

definition graph_api_get ::
  "(nat \<Rightarrow> proc_result) \<Rightarrow> (string \<Rightarrow> json option) \<Rightarrow> call list \<Rightarrow> json \<Rightarrow> int \<Rightarrow>
   (py_error + json option) \<times> call list" where
  "graph_api_get run json_loads calls url timeout =
     (case url of
        JStr u \<Rightarrow>
          (case az run calls
                  [''rest'', ''--method'', ''GET'', ''--url'', u, ''--headers'', ''ConsistencyLevel=eventual'']
                  timeout of
             (TimeoutExpired, calls') \<Rightarrow> (Inr None, calls')
           | (CompletedProcess returncode stdout, calls') \<Rightarrow>
               if returncode \<noteq> 0 \<or> strip stdout = [] then (Inr None, calls')
               else (Inr (json_loads stdout), calls'))
      | _ \<Rightarrow> (Inl TypeError, calls))"

text \<open>
  The body of the loop over the machines of one page, for one element \<open>m\<close>. \<^verbatim>\<open>m.get\<close> raises
  \<^verbatim>\<open>AttributeError\<close> when \<open>m\<close> is not an object. \<^verbatim>\<open>m["azureVmId"]\<close> and \<^verbatim>\<open>m["computerDnsName"]\<close>
  are read only after \<^verbatim>\<open>m.get\<close> of the same key was truthy, so the key is there and the value
  is the one \<^verbatim>\<open>m.get\<close> returned.
\<close>

definition add_machine_keys :: "string set \<Rightarrow> json \<Rightarrow> py_error + string set" where
  "add_machine_keys keys m =
     (case m of
        JObject kvs \<Rightarrow>
          if items_get kvs ''osPlatform'' JNull \<noteq> JStr ''Windows'' then Inr keys
          else
            (case (if json_truthy (items_get kvs ''azureVmId'' JNull)
                   then (case json_lower (items_get kvs ''azureVmId'' JNull) of
                           Inl e \<Rightarrow> Inl e
                         | Inr s \<Rightarrow> Inr (insert s keys))
                   else Inr keys) of
               Inl e \<Rightarrow> Inl e
             | Inr keys1 \<Rightarrow>
                 if json_truthy (items_get kvs ''computerDnsName'' JNull)
                 then (case json_split_dot_0 (items_get kvs ''computerDnsName'' JNull) of
                         Inl e \<Rightarrow> Inl e
                       | Inr s \<Rightarrow> Inr (insert (lower s) keys1))
                 else Inr keys1)
      | _ \<Rightarrow> Inl AttributeError)"

text \<open>The \<^verbatim>\<open>for m in ...\<close> loop over the machines of one page.\<close>

fun add_machines :: "string set \<Rightarrow> json list \<Rightarrow> py_error + string set" where
  "add_machines keys [] = Inr keys"
| "add_machines keys (m # ms) =
     (case add_machine_keys keys m of
        Inl e \<Rightarrow> Inl e
      | Inr keys' \<Rightarrow> add_machines keys' ms)"

text \<open>
  The \<^verbatim>\<open>while url:\<close> loop. A payload that is false (\<^verbatim>\<open>None\<close> from \<^verbatim>\<open>graph_api_get\<close>, or a decoded
  value that is false) leaves the loop by \<^verbatim>\<open>break\<close>, and the function returns the keys it
  has. \<^verbatim>\<open>payload.get\<close> raises \<^verbatim>\<open>AttributeError\<close> when the payload is not an object. The result
  is what the function returns (\<open>Inr\<close>) or the exception that leaves it (\<open>Inl\<close>), together
  with the calls made; \<open>None\<close> is a loop that never ends.
\<close>

partial_function (option) mde_keys_loop ::
  "(nat \<Rightarrow> proc_result) \<Rightarrow> (string \<Rightarrow> json option) \<Rightarrow> json \<Rightarrow> string set \<Rightarrow> call list \<Rightarrow>
   ((py_error + string set) \<times> call list) option" where
  "mde_keys_loop run json_loads url keys calls =
     (if \<not> json_truthy url then Some (Inr keys, calls)
      else
        (case graph_api_get run json_loads calls url AZ_TIMEOUT_SECONDS of
           (Inl e, calls') \<Rightarrow> Some (Inl e, calls')
         | (Inr None, calls') \<Rightarrow> Some (Inr keys, calls')
         | (Inr (Some payload), calls') \<Rightarrow>
             if \<not> json_truthy payload then Some (Inr keys, calls')
             else
               (case payload of
                  JObject kvs \<Rightarrow>
                    (case json_iter (items_get kvs ''value'' (JArray [])) of
                       Inl e \<Rightarrow> Some (Inl e, calls')
                     | Inr ms \<Rightarrow>
                         (case add_machines keys ms of
                            Inl e \<Rightarrow> Some (Inl e, calls')
                          | Inr keys' \<Rightarrow>
                              mde_keys_loop run json_loads (items_get kvs ''@odata.nextLink'' JNull)
                                keys' calls'))
                | _ \<Rightarrow> Some (Inl AttributeError, calls'))))"

definition mde_url :: string where
  "mde_url = ''https://graph.microsoft.com/v1.0/security/machines?$top=1000''"

definition get_mde_windows_machine_keys ::
  "(nat \<Rightarrow> proc_result) \<Rightarrow> (string \<Rightarrow> json option) \<Rightarrow> call list \<Rightarrow>
   ((py_error + string set) \<times> call list) option" where
  "get_mde_windows_machine_keys run json_loads calls =
     mde_keys_loop run json_loads (JStr mde_url) {} calls"

section \<open>The inventory document\<close>

text \<open>
  The metadata of one host is a dict from key to a string, null or (for \<^verbatim>\<open>mde_onboarded\<close>) a
  boolean. \<open>hostvars\<close> is the dict \<^verbatim>\<open>inventory["_meta"]["hostvars"]\<close> in insertion order,
  the six other fields are the \<^verbatim>\<open>hosts\<close> arrays of the six groups.
\<close>

datatype hostvar = Val pyval | Flag bool

type_synonym host_meta = "string \<rightharpoonup> hostvar"

record inventory =
  hostvars :: "(string \<times> host_meta) list"
  all_hosts :: "string list"
  linux_hosts :: "string list"
  windows_hosts :: "string list"
  network_appliances_hosts :: "string list"
  windows_mde_onboarded_hosts :: "string list"
  windows_mde_not_onboarded_hosts :: "string list"

definition empty_inventory :: inventory where
  "empty_inventory =
     \<lparr>hostvars = [], all_hosts = [], linux_hosts = [], windows_hosts = [],
      network_appliances_hosts = [], windows_mde_onboarded_hosts = [],
      windows_mde_not_onboarded_hosts = []\<rparr>"

text \<open>
  \<^verbatim>\<open>d[k] = v\<close> on a dict kept in insertion order: an existing key keeps its place and gets
  the new value, a new key goes to the end. \<^verbatim>\<open>d[k][f] = x\<close> changes the entry of \<open>k\<close>.
\<close>

fun dict_set :: "'k \<Rightarrow> 'v \<Rightarrow> ('k \<times> 'v) list \<Rightarrow> ('k \<times> 'v) list" where
  "dict_set k v [] = [(k, v)]"
| "dict_set k v (p # ps) = (if fst p = k then (k, v) # ps else p # dict_set k v ps)"

fun dict_set_field :: "'k \<Rightarrow> string \<Rightarrow> hostvar \<Rightarrow> ('k \<times> host_meta) list \<Rightarrow> ('k \<times> host_meta) list" where
  "dict_set_field k f x [] = []"
| "dict_set_field k f x (p # ps) =
     (if fst p = k then (k, (snd p)(f \<mapsto> x)) # ps else p # dict_set_field k f x ps)"

section \<open>The join and classification engine\<close>

text \<open>The set of vendor names, as a list: it is only searched, so the order does not matter.\<close>

definition APPLIANCE_PUBLISHERS :: "string list" where
  "APPLIANCE_PUBLISHERS =
     [''citrix'', ''barracudanetworks'', ''f5-networks'', ''paloaltonetworks'',
      ''fortinet'', ''sophos'', ''checkpoint'', ''cisco'']"

text \<open>Step 3 of \<^verbatim>\<open>main\<close>: the map from interface id to private address.\<close>

definition add_nic :: "(string \<rightharpoonup> pyval) \<Rightarrow> pydict \<Rightarrow> (string \<rightharpoonup> pyval)" where
  "add_nic nic_ip_map nic =
     (let nic_id = dict_get nic ''id'' in
      if truthy nic_id then
        nic_ip_map(or_empty nic_id \<mapsto>
          (let s = strip (or_empty (py_or (dict_get nic ''privateIp'') (PyStr []))) in
           if s \<noteq> [] then PyStr s else PyNone))
      else nic_ip_map)"

definition build_nic_ip_map :: "pydict list \<Rightarrow> (string \<rightharpoonup> pyval)" where
  "build_nic_ip_map nics = foldl add_nic Map.empty nics"

text \<open>\<^verbatim>\<open>nic_ip_map.get(nic_id)\<close>, where \<open>nic_id\<close> may be \<^verbatim>\<open>None\<close>, which is never a key.\<close>

definition nic_ip_get :: "(string \<rightharpoonup> pyval) \<Rightarrow> pyval \<Rightarrow> pyval" where
  "nic_ip_get nic_ip_map nic_id =
     (case nic_id of
        PyNone \<Rightarrow> PyNone
      | PyStr s \<Rightarrow> (case nic_ip_map s of None \<Rightarrow> PyNone | Some v \<Rightarrow> v))"

text \<open>
  Step 4: the body of \<^verbatim>\<open>for vm in vms\<close>. \<^verbatim>\<open>vm["publisher"]\<close> is the one access by index, so a
  record without that key raises \<^verbatim>\<open>KeyError\<close>; \<^verbatim>\<open>any(p in publisher for p in ...)\<close> is a
  substring test against each entry of the denylist.
\<close>

definition add_vm :: "string set \<Rightarrow> (string \<rightharpoonup> pyval) \<Rightarrow> inventory \<Rightarrow> pydict \<Rightarrow> py_error + inventory" where
  "add_vm mde_windows_keys nic_ip_map inventory vm =
     (let name = strip (or_empty (py_or (dict_get vm ''name'') (PyStr []))) in
      if name = [] then Inr inventory
      else
        let nic_id = dict_get vm ''nicId'';
            ip = nic_ip_get nic_ip_map nic_id;
            inv1 = inventory
              \<lparr>all_hosts := all_hosts inventory @ [name],
               hostvars := dict_set name
                 [''ansible_host'' \<mapsto> Val ip,
                  ''private_ip'' \<mapsto> Val ip,
                  ''resource_group'' \<mapsto> Val (dict_get vm ''resourceGroup''),
                  ''location'' \<mapsto> Val (dict_get vm ''location''),
                  ''os_type'' \<mapsto> Val (dict_get vm ''osType''),
                  ''nic_id'' \<mapsto> Val nic_id]
                 (hostvars inventory)\<rparr>
        in
        (case dict_index vm ''publisher'' of
           Inl e \<Rightarrow> Inl e
         | Inr p \<Rightarrow>
             let publisher = lower (or_empty (py_or p (PyStr [])));
                 is_appliance = list_ex (\<lambda>p. sublist p publisher) APPLIANCE_PUBLISHERS
             in
             if dict_get vm ''osType'' = PyStr ''Linux'' \<and> \<not> is_appliance then
               Inr (inv1\<lparr>linux_hosts := linux_hosts inv1 @ [name]\<rparr>)
             else if dict_get vm ''osType'' = PyStr ''Linux'' \<and> is_appliance then
               Inr (inv1\<lparr>network_appliances_hosts := network_appliances_hosts inv1 @ [name]\<rparr>)
             else if dict_get vm ''osType'' = PyStr ''Windows'' then
               let inv2 = inv1\<lparr>windows_hosts := windows_hosts inv1 @ [name]\<rparr>;
                   vm_id_key = lower (or_empty (py_or (dict_get vm ''id'') (PyStr [])));
                   name_key = lower name;
                   is_onboarded = (vm_id_key \<in> mde_windows_keys \<or> name_key \<in> mde_windows_keys);
                   inv3 = inv2\<lparr>hostvars :=
                            dict_set_field name ''mde_onboarded'' (Flag is_onboarded) (hostvars inv2)\<rparr>
               in
               if is_onboarded then
                 Inr (inv3\<lparr>windows_mde_onboarded_hosts := windows_mde_onboarded_hosts inv3 @ [name]\<rparr>)
               else
                 Inr (inv3\<lparr>windows_mde_not_onboarded_hosts :=
                             windows_mde_not_onboarded_hosts inv3 @ [name]\<rparr>)
             else
               Inr (inv1\<lparr>windows_hosts := windows_hosts inv1 @ [name]\<rparr>)))"

text \<open>The loop: the first exception ends it.\<close>

fun add_vms :: "string set \<Rightarrow> (string \<rightharpoonup> pyval) \<Rightarrow> inventory \<Rightarrow> pydict list \<Rightarrow> py_error + inventory" where
  "add_vms mde_windows_keys nic_ip_map inventory [] = Inr inventory"
| "add_vms mde_windows_keys nic_ip_map inventory (vm # vms) =
     (case add_vm mde_windows_keys nic_ip_map inventory vm of
        Inl e \<Rightarrow> Inl e
      | Inr inventory' \<Rightarrow> add_vms mde_windows_keys nic_ip_map inventory' vms)"

text \<open>Steps 3 and 4 together.\<close>

definition build_inventory :: "string set \<Rightarrow> pydict list \<Rightarrow> pydict list \<Rightarrow> py_error + inventory" where
  "build_inventory mde_windows_keys nics vms =
     add_vms mde_windows_keys (build_nic_ip_map nics) empty_inventory vms"

section \<open>Main\<close>

definition squote :: "string \<Rightarrow> string" where
  "squote s = [CHR 0x27] @ s @ [CHR 0x27]"

definition vm_query :: string where
  "vm_query = concat (map (\<lambda>l. l @ ''\<newline>'')
     [[],
      ''Resources'',
      ''| where type == '' @ squote ''microsoft.compute/virtualmachines'',
      ''| project'',
      ''    name,'',
      ''    resourceGroup,'',
      ''    location,'',
      ''    osType = tostring(properties.storageProfile.osDisk.osType),'',
      ''    publisher = tostring(properties.storageProfile.imageReference.publisher),'',
      ''    offer     = tostring(properties.storageProfile.imageReference.offer),'',
      ''    sku       = tostring(properties.storageProfile.imageReference.sku),'',
      ''    nicId  = tostring(properties.networkProfile.networkInterfaces[0].id)''])"

definition nic_query :: string where
  "nic_query = concat (map (\<lambda>l. l @ ''\<newline>'')
     [[],
      ''Resources'',
      ''| where type == '' @ squote ''microsoft.network/networkinterfaces'',
      ''| project'',
      ''    id,'',
      ''    privateIp = tostring(properties.ipConfigurations[0].properties.privateIPAddress)''])"

text \<open>
  What one run of \<^verbatim>\<open>main\<close> meets: the clock at the cache check, the cache file, the outcomes of
  the \<^verbatim>\<open>az\<close> calls, the JSON decoder on the two kinds of response, the two serialisers
  (\<^verbatim>\<open>json.dump\<close> into the cache file and \<^verbatim>\<open>json.dumps(..., indent=2)\<close> for the output), and what
  the file system does to the write of the cache.
\<close>

record env =
  e_clock :: real
  e_cache :: cache_fs
  e_run :: "nat \<Rightarrow> proc_result"
  e_loads_graph :: "string \<Rightarrow> graph_json option"
  e_loads_mde :: "string \<Rightarrow> json option"
  e_dump :: "inventory \<Rightarrow> string"
  e_dumps_indent :: "inventory \<Rightarrow> string"
  e_save_io :: save_io
  e_save_time :: real

text \<open>\<^verbatim>\<open>print(s)\<close> writes \<open>s\<close> and a newline.\<close>

definition print :: "string \<Rightarrow> string" where
  "print s = s @ ''\<newline>''"

text \<open>
  The result of a run that returns: an exception, or the text printed together with the cache
  file and the calls made. \<open>None\<close> is a run that never returns.
\<close>

definition main :: "env \<Rightarrow> (py_error + string \<times> cache_fs \<times> call list) option" where
  "main e =
     (case load_cache_if_fresh (e_clock e) (e_cache e) of
        Inl err \<Rightarrow> Some (Inl err)
      | Inr (Some cached) \<Rightarrow> Some (Inr (print cached, e_cache e, []))
      | Inr None \<Rightarrow>
          (case graph_query_all (e_run e) (e_loads_graph e) [] vm_query GRAPH_PAGE_SIZE of
             None \<Rightarrow> None
           | Some (Inl err, calls1) \<Rightarrow> Some (Inl err)
           | Some (Inr vms, calls1) \<Rightarrow>
          (case graph_query_all (e_run e) (e_loads_graph e) calls1 nic_query GRAPH_PAGE_SIZE of
             None \<Rightarrow> None
           | Some (Inl err, calls2) \<Rightarrow> Some (Inl err)
           | Some (Inr nics, calls2) \<Rightarrow>
          (case get_mde_windows_machine_keys (e_run e) (e_loads_mde e) calls2 of
             None \<Rightarrow> None
           | Some (Inl err, calls3) \<Rightarrow> Some (Inl err)
           | Some (Inr mde_windows_keys, calls3) \<Rightarrow>
               if vms = [] then
                 let inv = empty_inventory;
                     (fs', _) = save_cache (e_save_io e) (e_save_time e) (e_dump e) inv (e_cache e)
                 in Some (Inr (print (e_dumps_indent e inv), fs', calls3))
               else
                 (case build_inventory mde_windows_keys nics vms of
                    Inl err \<Rightarrow> Some (Inl err)
                  | Inr inventory \<Rightarrow>
                      let (fs', _) = save_cache (e_save_io e) (e_save_time e) (e_dump e)
                                       inventory (e_cache e)
                      in Some (Inr (print (e_dumps_indent e inventory), fs', calls3)))))))"

section \<open>Notions used in the statements\<close>

text \<open>The host name the loop computes for a record: \<^verbatim>\<open>(vm.get("name") or "").strip()\<close>.\<close>

definition vm_name :: "pydict \<Rightarrow> string" where
  "vm_name vm = strip (or_empty (py_or (dict_get vm ''name'') (PyStr [])))"

text \<open>The host names of a list of records, in order: the names that are not empty.\<close>

definition host_names :: "pydict list \<Rightarrow> string list" where
  "host_names vms = filter (\<lambda>n. n \<noteq> []) (map vm_name vms)"

text \<open>The metadata the loop stores for a record before it classifies the record.\<close>

definition base_meta :: "(string \<rightharpoonup> pyval) \<Rightarrow> pydict \<Rightarrow> host_meta" where
  "base_meta M vm =
     [''ansible_host'' \<mapsto> Val (nic_ip_get M (dict_get vm ''nicId'')),
      ''private_ip'' \<mapsto> Val (nic_ip_get M (dict_get vm ''nicId'')),
      ''resource_group'' \<mapsto> Val (dict_get vm ''resourceGroup''),
      ''location'' \<mapsto> Val (dict_get vm ''location''),
      ''os_type'' \<mapsto> Val (dict_get vm ''osType''),
      ''nic_id'' \<mapsto> Val (dict_get vm ''nicId'')]"

text \<open>\<^verbatim>\<open>is_appliance\<close> for the value \<open>p\<close> found under \<^verbatim>\<open>"publisher"\<close>.\<close>

definition is_appliance_publisher :: "pyval \<Rightarrow> bool" where
  "is_appliance_publisher p = list_ex (\<lambda>d. sublist d (lower (or_empty p))) APPLIANCE_PUBLISHERS"

text \<open>
  What \<^verbatim>\<open>json.loads\<close> hands to the paginated client for the outcome of call \<open>k\<close>: the decoded
  output, or \<open>None\<close> for a timeout, a return code other than zero, blank output or output
  that does not decode. \<open>next_token\<close> is the continuation token the client reads from an
  object, \<open>page_records\<close> the records it takes from a response, \<open>has_token\<close> whether the
  response makes it ask for another page.
\<close>

definition graph_response :: "(nat \<Rightarrow> proc_result) \<Rightarrow> (string \<Rightarrow> graph_json option) \<Rightarrow> nat \<Rightarrow> graph_json option" where
  "graph_response run json_loads k =
     (case run k of
        TimeoutExpired \<Rightarrow> None
      | CompletedProcess returncode stdout \<Rightarrow>
          if returncode \<noteq> 0 \<or> strip stdout = [] then None else json_loads stdout)"

definition next_token :: "graph_payload \<Rightarrow> pyval" where
  "next_token payload = py_or (py_or (get_skipToken payload) (get_skip_token payload)) PyNone"

definition page_records :: "graph_json option \<Rightarrow> pydict list" where
  "page_records r =
     (case r of
        Some (GraphObject payload) \<Rightarrow> (case get_data payload of None \<Rightarrow> [] | Some d \<Rightarrow> d)
      | _ \<Rightarrow> [])"

definition has_token :: "graph_json option \<Rightarrow> bool" where
  "has_token r = (case r of Some (GraphObject payload) \<Rightarrow> truthy (next_token payload) | _ \<Rightarrow> False)"

text \<open>
  \<open>grows_by ns iv iv'\<close>: the document \<open>iv'\<close> is \<open>iv\<close> after the hosts \<open>ns\<close> were added, as far
  as the group memberships and the keys of the metadata go.
\<close>

definition grows_by :: "string list \<Rightarrow> inventory \<Rightarrow> inventory \<Rightarrow> bool" where
  "grows_by ns iv iv' \<longleftrightarrow>
     all_hosts iv' = all_hosts iv @ ns \<and>
     (\<forall>x. count_list (linux_hosts iv' @ network_appliances_hosts iv' @ windows_hosts iv') x =
          count_list (linux_hosts iv @ network_appliances_hosts iv @ windows_hosts iv) x
          + count_list ns x) \<and>
     set (map fst (hostvars iv')) = set (map fst (hostvars iv)) \<union> set ns \<and>
     (distinct (map fst (hostvars iv)) \<longrightarrow> distinct (map fst (hostvars iv'))) \<and>
     set (windows_mde_onboarded_hosts iv') \<subseteq> set (windows_mde_onboarded_hosts iv) \<union> set ns \<and>
     set (windows_mde_not_onboarded_hosts iv') \<subseteq> set (windows_mde_not_onboarded_hosts iv) \<union> set ns"

text \<open>
  The same for the security-machines endpoint. \<open>mde_response\<close> is what \<^verbatim>\<open>graph_api_get\<close>
  returns for the outcome of call \<open>k\<close>. \<open>mde_page keys payload\<close> is one turn of the loop
  body after the \<^verbatim>\<open>break\<close> test: the keys after the machines of the payload were added to
  \<open>keys\<close>, and the next value of \<^verbatim>\<open>url\<close>; or the exception raised. \<open>page_keys\<close> are the keys a
  response gives on its own. \<open>page_with_next_link\<close> says that a response is a page that
  succeeded and leads to a next page: it decoded, its machines were read without an
  exception, and its next link is a string that is not empty. \<open>mde_call\<close> is the call the
  resolver makes for a URL.
\<close>

definition mde_response :: "(nat \<Rightarrow> proc_result) \<Rightarrow> (string \<Rightarrow> json option) \<Rightarrow> nat \<Rightarrow> json option" where
  "mde_response run json_loads k =
     (case run k of
        TimeoutExpired \<Rightarrow> None
      | CompletedProcess returncode stdout \<Rightarrow>
          if returncode \<noteq> 0 \<or> strip stdout = [] then None else json_loads stdout)"

definition mde_page :: "string set \<Rightarrow> json \<Rightarrow> py_error + string set \<times> json" where
  "mde_page keys payload =
     (case payload of
        JObject kvs \<Rightarrow>
          (case json_iter (items_get kvs ''value'' (JArray [])) of
             Inl e \<Rightarrow> Inl e
           | Inr ms \<Rightarrow>
               (case add_machines keys ms of
                  Inl e \<Rightarrow> Inl e
                | Inr keys' \<Rightarrow> Inr (keys', items_get kvs ''@odata.nextLink'' JNull)))
      | _ \<Rightarrow> Inl AttributeError)"

definition page_keys :: "json option \<Rightarrow> string set" where
  "page_keys r =
     (case r of
        None \<Rightarrow> {}
      | Some payload \<Rightarrow> (case mde_page {} payload of Inl e \<Rightarrow> {} | Inr (ks, url) \<Rightarrow> ks))"

definition page_with_next_link :: "json option \<Rightarrow> bool" where
  "page_with_next_link r =
     (case r of
        None \<Rightarrow> False
      | Some payload \<Rightarrow>
          (case mde_page {} payload of
             Inl e \<Rightarrow> False
           | Inr (ks, url) \<Rightarrow> (case url of JStr u \<Rightarrow> u \<noteq> [] | _ \<Rightarrow> False)))"

definition mde_call :: "string \<Rightarrow> call" where
  "mde_call u =
     (''az'' # [''rest'', ''--method'', ''GET'', ''--url'', u, ''--headers'',
               ''ConsistencyLevel=eventual''], AZ_TIMEOUT_SECONDS)"

text \<open>A Windows machine with a resource id, and a record whose name is blank.\<close>

definition win_vm :: pydict where
  "win_vm = [''name'' \<mapsto> PyStr '' Web01 '', ''osType'' \<mapsto> PyStr ''Windows'',
             ''publisher'' \<mapsto> PyStr ''MicrosoftWindowsServer'',
             ''id'' \<mapsto> PyStr ''/Subscriptions/S1/VM/Web01'']"

definition blank_vm :: pydict where
  "blank_vm = [''name'' \<mapsto> PyStr ''  '', ''osType'' \<mapsto> PyStr ''Linux'']"

text \<open>A Linux machine built from a Cisco image.\<close>

definition cisco_vm :: pydict where
  "cisco_vm = [''name'' \<mapsto> PyStr ''fw1'', ''osType'' \<mapsto> PyStr ''Linux'',
               ''publisher'' \<mapsto> PyStr ''Cisco Systems, Inc.'']"

text \<open>
  Fake backends for the paginated client. \<open>paged_loads\<close> decodes four outputs: three pages of
  one record each that carry a continuation token (the second under the other key), and a
  response with no record and no token. \<open>paged_run\<close> answers the calls with the three pages
  and then the response without token.
\<close>

definition paged_loads :: "string \<Rightarrow> graph_json option" where
  "paged_loads s =
     (if s = ''p0'' then
        Some (GraphObject \<lparr>get_data = Some [[''name'' \<mapsto> PyStr ''vm0'']], get_skipToken = PyStr ''t1'',
              get_skip_token = PyNone\<rparr>)
      else if s = ''p1'' then
        Some (GraphObject \<lparr>get_data = Some [[''name'' \<mapsto> PyStr ''vm1'']], get_skipToken = PyNone,
              get_skip_token = PyStr ''t2''\<rparr>)
      else if s = ''p2'' then
        Some (GraphObject \<lparr>get_data = Some [[''name'' \<mapsto> PyStr ''vm2'']], get_skipToken = PyStr ''t3'',
              get_skip_token = PyNone\<rparr>)
      else if s = ''p3'' then
        Some (GraphObject \<lparr>get_data = Some [], get_skipToken = PyNone, get_skip_token = PyStr []\<rparr>)
      else None)"

definition paged_run :: "nat \<Rightarrow> proc_result" where
  "paged_run k =
     (if k = 0 then CompletedProcess 0 ''p0''
      else if k = 1 then CompletedProcess 0 ''p1''
      else if k = 2 then CompletedProcess 0 ''p2''
      else CompletedProcess 0 ''p3'')"


text \<open>
  A fake security-machines endpoint: the first call returns one page with one Windows machine
  and a next link, every later call times out.
\<close>

definition mde_page0 :: json where
  "mde_page0 =
     JObject
       [(''value'',
         JArray [JObject [(''osPlatform'', JStr ''Windows''),
                          (''azureVmId'', JStr ''/Subscriptions/S1/VM/Web01''),
                          (''computerDnsName'', JStr ''Web01.corp.local'')]]),
        (''@odata.nextLink'', JStr ''https://graph.microsoft.com/next'')]"

definition mde_loads :: "string \<Rightarrow> json option" where
  "mde_loads s = (if s = ''m0'' then Some mde_page0 else None)"

definition mde_run :: "nat \<Rightarrow> proc_result" where
  "mde_run k = (if k = 0 then CompletedProcess 0 ''m0'' else TimeoutExpired)"


text \<open>
  A record with no \<^verbatim>\<open>osType\<close>, a record with no \<^verbatim>\<open>publisher\<close>, and whole runs of \<^verbatim>\<open>main\<close>: a
  decoder for the outputs \<^verbatim>\<open>vms\<close>, \<^verbatim>\<open>nics\<close> and \<^verbatim>\<open>[]\<close> (the empty JSON array), an environment
  with no cache file, a world in which the VM query fails while the two other queries succeed,
  a world in which the VM query returns the record with no publisher, and a world in which
  every call exits with status 0 and prints \<^verbatim>\<open>[]\<close>. \<open>graph_call\<close> is the call the paginated
  client makes for a query and a token.
\<close>

definition other_vm :: pydict where
  "other_vm = [''name'' \<mapsto> PyStr ''appl1'', ''publisher'' \<mapsto> PyStr ''Canonical'']"

definition no_publisher_vm :: pydict where
  "no_publisher_vm = [''name'' \<mapsto> PyStr ''db1'', ''osType'' \<mapsto> PyStr ''Linux'']"

definition sample_loads :: "string \<Rightarrow> graph_json option" where
  "sample_loads s =
     (if s = ''vms'' then
        Some (GraphObject \<lparr>get_data = Some [no_publisher_vm], get_skipToken = PyNone,
                            get_skip_token = PyNone\<rparr>)
      else if s = ''nics'' then
        Some (GraphObject
                \<lparr>get_data = Some [[''id'' \<mapsto> PyStr ''nic1'', ''privateIp'' \<mapsto> PyStr ''10.0.0.4'']],
                 get_skipToken = PyNone, get_skip_token = PyNone\<rparr>)
      else if s = ''[]'' then Some GraphNotObject
      else None)"

definition sample_env :: "(nat \<Rightarrow> proc_result) \<Rightarrow> env" where
  "sample_env run =
     \<lparr>e_clock = 1000,
      e_cache = \<lparr>path_exists = False, getmtime = Inl OSError, read_text = Inl OSError\<rparr>,
      e_run = run,
      e_loads_graph = sample_loads,
      e_loads_mde = mde_loads,
      e_dump = (\<lambda>iv. concat (all_hosts iv)),
      e_dumps_indent = (\<lambda>iv. concat (map (\<lambda>h. h @ ''\<newline>'') (all_hosts iv))),
      e_save_io = Written,
      e_save_time = 1000\<rparr>"

definition vm_fails_run :: "nat \<Rightarrow> proc_result" where
  "vm_fails_run k =
     (if k = 0 then CompletedProcess 1 []
      else if k = 1 then CompletedProcess 0 ''nics''
      else if k = 2 then CompletedProcess 0 ''m0''
      else TimeoutExpired)"

definition bad_vm_run :: "nat \<Rightarrow> proc_result" where
  "bad_vm_run k = (if k = 0 then CompletedProcess 0 ''vms'' else TimeoutExpired)"

definition array_run :: "nat \<Rightarrow> proc_result" where
  "array_run k = CompletedProcess 0 ''[]''"

definition graph_call :: "string \<Rightarrow> int \<Rightarrow> pyval \<Rightarrow> call" where
  "graph_call query page_size skip_token =
     (''az'' # graph_cmd query page_size skip_token, AZ_TIMEOUT_SECONDS)"

text \<open>
  A Windows machine as \<^verbatim>\<open>main\<close> receives it: the row of the eight columns that the VM query
  projects (\<^verbatim>\<open>name\<close>, \<^verbatim>\<open>resourceGroup\<close>, \<^verbatim>\<open>location\<close>, \<^verbatim>\<open>osType\<close>, \<^verbatim>\<open>publisher\<close>, \<^verbatim>\<open>offer\<close>, \<^verbatim>\<open>sku\<close>,
  \<^verbatim>\<open>nicId\<close>), with no \<^verbatim>\<open>id\<close>. \<open>web01_id\<close> is the resource id of that machine. The
  security-machines endpoint of \<open>web01_run\<close> lists the machine under that id and under a
  host name that is not its Azure name; its resource graph returns the row and no interface.
  \<open>show_subgroups\<close> prints the two onboarding subgroups of a document.
\<close>

definition web01_id :: string where
  "web01_id = ''/Subscriptions/S1/VM/Web01''"

definition web01_row :: pydict where
  "web01_row =
     [''name'' \<mapsto> PyStr ''Web01'', ''resourceGroup'' \<mapsto> PyStr ''rg1'',
      ''location'' \<mapsto> PyStr ''westeurope'', ''osType'' \<mapsto> PyStr ''Windows'',
      ''publisher'' \<mapsto> PyStr ''MicrosoftWindowsServer'', ''offer'' \<mapsto> PyStr ''WindowsServer'',
      ''sku'' \<mapsto> PyStr ''2022-datacenter'', ''nicId'' \<mapsto> PyStr ''nic1'']"

definition web01_machines :: json where
  "web01_machines =
     JObject
       [(''value'',
         JArray [JObject [(''osPlatform'', JStr ''Windows''),
                          (''azureVmId'', JStr web01_id),
                          (''computerDnsName'', JStr ''WIN-7F3.corp.local'')]])]"

definition web01_loads_graph :: "string \<Rightarrow> graph_json option" where
  "web01_loads_graph s =
     (if s = ''vms'' then
        Some (GraphObject \<lparr>get_data = Some [web01_row], get_skipToken = PyNone,
                            get_skip_token = PyNone\<rparr>)
      else if s = ''nics'' then
        Some (GraphObject \<lparr>get_data = Some [], get_skipToken = PyNone, get_skip_token = PyNone\<rparr>)
      else None)"

definition web01_loads_mde :: "string \<Rightarrow> json option" where
  "web01_loads_mde s = (if s = ''machines'' then Some web01_machines else None)"

definition web01_run :: "nat \<Rightarrow> proc_result" where
  "web01_run k =
     (if k = 0 then CompletedProcess 0 ''vms''
      else if k = 1 then CompletedProcess 0 ''nics''
      else CompletedProcess 0 ''machines'')"

definition show_subgroups :: "inventory \<Rightarrow> string" where
  "show_subgroups iv =
     ''onboarded: '' @ concat (windows_mde_onboarded_hosts iv) @
     ''; not onboarded: '' @ concat (windows_mde_not_onboarded_hosts iv)"

definition web01_env :: env where
  "web01_env =
     \<lparr>e_clock = 1000,
      e_cache = \<lparr>path_exists = False, getmtime = Inl OSError, read_text = Inl OSError\<rparr>,
      e_run = web01_run,
      e_loads_graph = web01_loads_graph,
      e_loads_mde = web01_loads_mde,
      e_dump = show_subgroups,
      e_dumps_indent = show_subgroups,
      e_save_io = Written,
      e_save_time = 1000\<rparr>"

text \<open>A Defender machine whose DNS name starts with a dot: its short host name is empty.\<close>

definition dot_machine :: json where
  "dot_machine = JObject [(''osPlatform'', JStr ''Windows''), (''computerDnsName'', JStr ''.corp.local'')]"

section \<open>Lemmas about the loop body\<close>

lemma or_empty_py_or [simp]: "or_empty (py_or v (PyStr [])) = or_empty v"
  by (cases v) (simp_all add: py_or_def)

lemma map_of_dict_set_same [simp]: "map_of (dict_set k v d) k = Some v"
  by (induction d) auto

lemma map_of_dict_set_other [simp]: "k' \<noteq> k \<Longrightarrow> map_of (dict_set k v d) k' = map_of d k'"
  by (induction d) auto

lemma map_of_dict_set_field_same:
  "map_of (dict_set_field k f x d) k = map_option (\<lambda>m. m(f \<mapsto> x)) (map_of d k)"
  by (induction d) auto

lemma map_of_dict_set_field_other [simp]:
  "k' \<noteq> k \<Longrightarrow> map_of (dict_set_field k f x d) k' = map_of d k'"
  by (induction d) auto

lemma keys_dict_set_field [simp]: "map fst (dict_set_field k f x d) = map fst d"
  by (induction d) auto

lemma keys_dict_set:
  "map fst (dict_set k v d) = (if k \<in> set (map fst d) then map fst d else map fst d @ [k])"
  by (induction d) auto

lemma add_vm_unnamed: "vm_name vm = [] \<Longrightarrow> add_vm K M iv vm = Inr iv"
  by (simp add: add_vm_def vm_name_def)

lemma add_vm_no_publisher:
  "vm_name vm \<noteq> [] \<Longrightarrow> vm ''publisher'' = None \<Longrightarrow> add_vm K M iv vm = Inl KeyError"
  by (simp add: add_vm_def vm_name_def dict_index_def Let_def)

lemma add_vm_linux:
  assumes "vm_name vm \<noteq> []" "vm ''publisher'' = Some p" "dict_get vm ''osType'' = PyStr ''Linux''"
    "\<not> is_appliance_publisher p"
  shows "add_vm K M iv vm = Inr (iv\<lparr>all_hosts := all_hosts iv @ [vm_name vm],
           hostvars := dict_set (vm_name vm) (base_meta M vm) (hostvars iv),
           linux_hosts := linux_hosts iv @ [vm_name vm]\<rparr>)"
  using assms
  by (simp add: add_vm_def vm_name_def dict_index_def Let_def base_meta_def is_appliance_publisher_def)

lemma add_vm_appliance:
  assumes "vm_name vm \<noteq> []" "vm ''publisher'' = Some p" "dict_get vm ''osType'' = PyStr ''Linux''"
    "is_appliance_publisher p"
  shows "add_vm K M iv vm = Inr (iv\<lparr>all_hosts := all_hosts iv @ [vm_name vm],
           hostvars := dict_set (vm_name vm) (base_meta M vm) (hostvars iv),
           network_appliances_hosts := network_appliances_hosts iv @ [vm_name vm]\<rparr>)"
  using assms
  by (simp add: add_vm_def vm_name_def dict_index_def Let_def base_meta_def is_appliance_publisher_def)

lemma add_vm_windows:
  assumes "vm_name vm \<noteq> []" "vm ''publisher'' = Some p" "dict_get vm ''osType'' = PyStr ''Windows''"
  shows "add_vm K M iv vm = Inr (iv\<lparr>all_hosts := all_hosts iv @ [vm_name vm],
           hostvars := dict_set_field (vm_name vm) ''mde_onboarded''
              (Flag (lower (or_empty (dict_get vm ''id'')) \<in> K \<or> lower (vm_name vm) \<in> K))
              (dict_set (vm_name vm) (base_meta M vm) (hostvars iv)),
           windows_hosts := windows_hosts iv @ [vm_name vm],
           windows_mde_onboarded_hosts := windows_mde_onboarded_hosts iv @
              (if lower (or_empty (dict_get vm ''id'')) \<in> K \<or> lower (vm_name vm) \<in> K
               then [vm_name vm] else []),
           windows_mde_not_onboarded_hosts := windows_mde_not_onboarded_hosts iv @
              (if lower (or_empty (dict_get vm ''id'')) \<in> K \<or> lower (vm_name vm) \<in> K
               then [] else [vm_name vm])\<rparr>)"
  using assms
  by (simp add: add_vm_def vm_name_def dict_index_def Let_def base_meta_def)

lemma add_vm_other:
  assumes "vm_name vm \<noteq> []" "vm ''publisher'' = Some p" "dict_get vm ''osType'' \<noteq> PyStr ''Linux''"
    "dict_get vm ''osType'' \<noteq> PyStr ''Windows''"
  shows "add_vm K M iv vm = Inr (iv\<lparr>all_hosts := all_hosts iv @ [vm_name vm],
           hostvars := dict_set (vm_name vm) (base_meta M vm) (hostvars iv),
           windows_hosts := windows_hosts iv @ [vm_name vm]\<rparr>)"
  using assms
  by (simp add: add_vm_def vm_name_def dict_index_def Let_def base_meta_def)

lemma is_appliance_publisher_iff:
  "is_appliance_publisher p \<longleftrightarrow>
     (\<exists>d \<in> {''citrix'', ''barracudanetworks'', ''f5-networks'', ''paloaltonetworks'',
              ''fortinet'', ''sophos'', ''checkpoint'', ''cisco''}. sublist d (lower (or_empty p)))"
  by (simp add: is_appliance_publisher_def APPLIANCE_PUBLISHERS_def)

section \<open>Lemmas about the loop over the records\<close>

lemma grows_by_Nil: "grows_by [] iv iv"
  by (simp add: grows_by_def)

lemma grows_by_trans:
  assumes "grows_by ns iv iv'" and "grows_by ms iv' iv''"
  shows "grows_by (ns @ ms) iv iv''"
  using assms unfolding grows_by_def by (simp; blast)

lemma count_list_distinct:
  "distinct xs \<Longrightarrow> count_list xs x = (if x \<in> set xs then 1 else 0)"
  by (induction xs) auto

lemma set_keys_dict_set [simp]: "fst ` set (dict_set k v d) = insert k (fst ` set d)"
  by (induction d) auto

lemma set_keys_dict_set_field [simp]: "fst ` set (dict_set_field k f x d) = fst ` set d"
  by (induction d) auto

lemma distinct_keys_dict_set:
  "distinct (map fst d) \<Longrightarrow> distinct (map fst (dict_set k v d))"
  by (simp add: keys_dict_set)

lemma add_vm_grows:
  assumes n: "vm_name vm \<noteq> []" and p: "vm ''publisher'' = Some p"
  shows "\<exists>iv'. add_vm K M iv vm = Inr iv' \<and> grows_by [vm_name vm] iv iv'"
proof -
  consider (lin) "dict_get vm ''osType'' = PyStr ''Linux''" "\<not> is_appliance_publisher p"
    | (app) "dict_get vm ''osType'' = PyStr ''Linux''" "is_appliance_publisher p"
    | (win) "dict_get vm ''osType'' = PyStr ''Windows''"
    | (oth) "dict_get vm ''osType'' \<noteq> PyStr ''Linux''" "dict_get vm ''osType'' \<noteq> PyStr ''Windows''"
    by blast
  then show ?thesis
  proof cases
    case lin
    then show ?thesis using n p
      by (auto simp add: add_vm_linux grows_by_def keys_dict_set)
  next
    case app
    then show ?thesis using n p
      by (auto simp add: add_vm_appliance grows_by_def keys_dict_set)
  next
    case win
    then show ?thesis using n p
      by (auto simp add: add_vm_windows grows_by_def keys_dict_set)
  next
    case oth
    then show ?thesis using n p
      by (auto simp add: add_vm_other grows_by_def keys_dict_set)
  qed
qed

lemma host_names_Cons:
  "host_names (vm # vms) = (if vm_name vm = [] then [] else [vm_name vm]) @ host_names vms"
  by (simp add: host_names_def)

lemma add_vms_grows:
  assumes "\<forall>vm \<in> set vms. vm_name vm \<noteq> [] \<longrightarrow> vm ''publisher'' \<noteq> None"
  shows "\<exists>iv'. add_vms K M iv vms = Inr iv' \<and> grows_by (host_names vms) iv iv'"
  using assms
proof (induction vms arbitrary: iv)
  case Nil
  then show ?case by (simp add: host_names_def grows_by_Nil)
next
  case (Cons vm vms)
  from Cons.prems have rest: "\<forall>vm \<in> set vms. vm_name vm \<noteq> [] \<longrightarrow> vm ''publisher'' \<noteq> None"
    by simp
  show ?case
  proof (cases "vm_name vm = []")
    case True
    from Cons.IH [OF rest, of iv]
    obtain iv2 where s2: "add_vms K M iv vms = Inr iv2" "grows_by (host_names vms) iv iv2"
      by blast
    with True show ?thesis
      by (simp add: add_vm_unnamed host_names_Cons)
  next
    case False
    with Cons.prems obtain p where p: "vm ''publisher'' = Some p" by auto
    from add_vm_grows [OF False p, of K M iv]
    obtain iv1 where s1: "add_vm K M iv vm = Inr iv1" "grows_by [vm_name vm] iv iv1" by blast
    from Cons.IH [OF rest, of iv1]
    obtain iv2 where s2: "add_vms K M iv1 vms = Inr iv2" "grows_by (host_names vms) iv1 iv2"
      by blast
    from grows_by_trans [OF s1(2) s2(2)] s1(1) s2(1) False show ?thesis
      by (simp add: host_names_Cons)
  qed
qed

lemma add_vms_no_publisher:
  assumes "\<exists>vm \<in> set vms. vm_name vm \<noteq> [] \<and> vm ''publisher'' = None"
  shows "add_vms K M iv vms = Inl KeyError"
  using assms
proof (induction vms arbitrary: iv)
  case Nil
  then show ?case by simp
next
  case (Cons vm vms)
  show ?case
  proof (cases "vm_name vm \<noteq> [] \<and> vm ''publisher'' = None")
    case True
    then show ?thesis by (simp add: add_vm_no_publisher)
  next
    case False
    with Cons.prems have ex: "\<exists>vm \<in> set vms. vm_name vm \<noteq> [] \<and> vm ''publisher'' = None"
      by auto
    have "\<exists>iv1. add_vm K M iv vm = Inr iv1"
    proof (cases "vm_name vm = []")
      case True
      then show ?thesis by (simp add: add_vm_unnamed)
    next
      case named: False
      with False obtain p where "vm ''publisher'' = Some p" by auto
      from add_vm_grows [OF named this, of K M iv] show ?thesis by blast
    qed
    then obtain iv1 where "add_vm K M iv vm = Inr iv1" ..
    with Cons.IH [OF ex, of iv1] show ?thesis by simp
  qed
qed

section \<open>Lemmas about the pagination loop\<close>

lemma graph_query_loop_step:
  "graph_query_loop run json_loads query page_size results skip_token calls =
     (let calls' = calls @ [(''az'' # graph_cmd query page_size skip_token, AZ_TIMEOUT_SECONDS)];
          r = graph_response run json_loads (length calls)
      in case r of
           None \<Rightarrow> Some (Inr [], calls')
         | Some GraphNotObject \<Rightarrow> Some (Inl AttributeError, calls')
         | Some (GraphObject payload) \<Rightarrow>
             if truthy (next_token payload)
             then graph_query_loop run json_loads query page_size (results @ page_records r)
                    (next_token payload) calls'
             else Some (Inr (results @ page_records r), calls'))"
  by (subst graph_query_loop.simps)
     (simp add: az_def graph_response_def next_token_def page_records_def Let_def
           split: proc_result.splits option.splits graph_json.splits)

lemma graph_query_loop_pages:
  assumes "\<forall>k. length calls \<le> k \<and> k < j \<longrightarrow> has_token (graph_response run json_loads k)"
    and "\<not> has_token (graph_response run json_loads j)"
    and "length calls \<le> j"
  shows "\<exists>calls'. graph_query_loop run json_loads query page_size results skip_token calls =
           Some (case graph_response run json_loads j of
                   None \<Rightarrow> Inr []
                 | Some GraphNotObject \<Rightarrow> Inl AttributeError
                 | Some (GraphObject payload) \<Rightarrow>
                     Inr (results @ concat (map (\<lambda>k. page_records (graph_response run json_loads k))
                                            [length calls..<Suc j])),
                 calls')
         \<and> length calls' = Suc j \<and> take (length calls) calls' = calls"
  using assms
proof (induction "j - length calls" arbitrary: calls results skip_token)
  case 0
  then have j: "j = length calls" by simp
  with "0.prems"(2) show ?case
    by (subst graph_query_loop_step)
       (auto simp: has_token_def Let_def split: option.splits graph_json.splits)
next
  case (Suc d)
  let ?c = "(''az'' # graph_cmd query page_size skip_token, AZ_TIMEOUT_SECONDS)"
  let ?r = "graph_response run json_loads (length calls)"
  from Suc.hyps(2) have lt: "length calls < j" by simp
  with Suc.prems(1) have tok: "has_token ?r" by simp
  then obtain payload where p: "?r = Some (GraphObject payload)" "truthy (next_token payload)"
    by (auto simp: has_token_def split: option.splits graph_json.splits)
  have d: "d = j - length (calls @ [?c])" using Suc.hyps(2) by simp
  have a1: "\<forall>k. length (calls @ [?c]) \<le> k \<and> k < j \<longrightarrow> has_token (graph_response run json_loads k)"
    using Suc.prems(1) by simp
  have a3: "length (calls @ [?c]) \<le> j" using lt by simp
  from Suc.hyps(1) [OF d a1 Suc.prems(2) a3, of "results @ page_records ?r" "next_token payload"]
  obtain calls' where ih:
    "graph_query_loop run json_loads query page_size (results @ page_records ?r) (next_token payload)
        (calls @ [?c]) =
       Some (case graph_response run json_loads j of
               None \<Rightarrow> Inr []
             | Some GraphNotObject \<Rightarrow> Inl AttributeError
             | Some (GraphObject payload) \<Rightarrow>
                 Inr ((results @ page_records ?r) @
                      concat (map (\<lambda>k. page_records (graph_response run json_loads k))
                              [length (calls @ [?c])..<Suc j])),
             calls')"
    "length calls' = Suc j" "take (length (calls @ [?c])) calls' = calls @ [?c]"
    by blast
  have upt: "[length calls..<Suc j] = length calls # [Suc (length calls)..<Suc j]"
    using lt by (simp add: upt_conv_Cons)
  have tk: "take (length calls) calls' = calls"
  proof -
    have "take (length calls) (take (length (calls @ [?c])) calls') = take (length calls) (calls @ [?c])"
      using ih(3) by simp
    then show ?thesis by (simp add: min_def)
  qed
  show ?case
    apply (subst graph_query_loop_step)
    using p ih(1) ih(2) tk upt
    by (simp add: Let_def split: option.splits graph_json.splits)
qed

lemma graph_query_loop_returns:
  assumes "graph_query_loop run json_loads query page_size results skip_token calls = Some y"
  shows "\<exists>j\<ge>length calls. \<not> has_token (graph_response run json_loads j)"
proof (rule graph_query_loop.raw_induct
    [where P = "\<lambda>run json_loads query page_size results skip_token calls y.
                  \<exists>j\<ge>length calls. \<not> has_token (graph_response run json_loads j)", OF _ assms])
  fix f :: "(nat \<Rightarrow> proc_result) \<Rightarrow> (string \<Rightarrow> graph_json option) \<Rightarrow> string \<Rightarrow> int \<Rightarrow>
            pydict list \<Rightarrow> pyval \<Rightarrow> call list \<Rightarrow> ((py_error + pydict list) \<times> call list) option"
    and run json_loads query page_size results skip_token calls y
  assume IH: "\<And>run json_loads query page_size results skip_token calls y.
      f run json_loads query page_size results skip_token calls = Some y \<Longrightarrow>
      \<exists>j\<ge>length calls. \<not> has_token (graph_response run json_loads j)"
  assume body: "(case az run calls (graph_cmd query page_size skip_token) AZ_TIMEOUT_SECONDS of
        (TimeoutExpired, calls') \<Rightarrow> Some (Inr [], calls')
      | (CompletedProcess returncode stdout, calls') \<Rightarrow>
          if returncode \<noteq> 0 \<or> strip stdout = [] then Some (Inr [], calls')
          else
            (case json_loads stdout of
               None \<Rightarrow> Some (Inr [], calls')
             | Some GraphNotObject \<Rightarrow> Some (Inl AttributeError, calls')
             | Some (GraphObject payload) \<Rightarrow>
                 let data = (case get_data payload of None \<Rightarrow> [] | Some d \<Rightarrow> d);
                     results' = results @ data;
                     skip_token' = py_or (py_or (get_skipToken payload) (get_skip_token payload)) PyNone
                 in if \<not> truthy skip_token' then Some (Inr results', calls')
                    else f run json_loads query page_size results' skip_token' calls')) = Some y"
  show "\<exists>j\<ge>length calls. \<not> has_token (graph_response run json_loads j)"
  proof (cases "has_token (graph_response run json_loads (length calls))")
    case False
    then show ?thesis by blast
  next
    case True
    then obtain payload where p: "graph_response run json_loads (length calls) = Some (GraphObject payload)"
      "truthy (next_token payload)"
      by (auto simp: has_token_def split: option.splits graph_json.splits)
    from p body obtain results' tok' where
      "f run json_loads query page_size results' tok'
         (calls @ [(''az'' # graph_cmd query page_size skip_token, AZ_TIMEOUT_SECONDS)]) = Some y"
      by (auto simp: az_def graph_response_def next_token_def Let_def
            split: proc_result.splits option.splits graph_json.splits if_splits)
    from IH [OF this] obtain j where
      "j \<ge> length (calls @ [(''az'' # graph_cmd query page_size skip_token, AZ_TIMEOUT_SECONDS)])"
      "\<not> has_token (graph_response run json_loads j)" by blast
    then have "j \<ge> length calls" by simp
    with \<open>\<not> has_token (graph_response run json_loads j)\<close> show ?thesis by blast
  qed
qed

lemma strip_p [simp]:
  "strip ''p0'' \<noteq> []" "strip ''p1'' \<noteq> []" "strip ''p2'' \<noteq> []" "strip ''p3'' \<noteq> []"
  by (simp_all add: strip_def is_space_def)


section \<open>Lemmas about the resolver's loop\<close>

lemma add_machine_keys_union:
  "add_machine_keys keys m =
     (case add_machine_keys {} m of Inl e \<Rightarrow> Inl e | Inr ks \<Rightarrow> Inr (keys \<union> ks))"
  by (cases m) (auto simp: add_machine_keys_def split: sum.splits)

lemma add_machines_union:
  "add_machines keys ms =
     (case add_machines {} ms of Inl e \<Rightarrow> Inl e | Inr ks \<Rightarrow> Inr (keys \<union> ks))"
proof (induction ms arbitrary: keys)
  case Nil
  then show ?case by simp
next
  case (Cons m ms)
  show ?case
  proof (cases "add_machine_keys {} m")
    case (Inl e)
    then show ?thesis using add_machine_keys_union [of keys m] by simp
  next
    case (Inr k0)
    then have 1: "add_machine_keys keys m = Inr (keys \<union> k0)"
      using add_machine_keys_union [of keys m] by simp
    show ?thesis
      using Inr 1 Cons.IH [of "keys \<union> k0"] Cons.IH [of k0]
      by (auto split: sum.splits)
  qed
qed

lemma mde_page_union:
  "mde_page keys payload =
     (case mde_page {} payload of Inl e \<Rightarrow> Inl e | Inr (ks, url) \<Rightarrow> Inr (keys \<union> ks, url))"
  using add_machines_union [of keys]
  by (cases payload) (auto simp: mde_page_def split: sum.splits)

lemma mde_keys_loop_done:
  "\<not> json_truthy url \<Longrightarrow> mde_keys_loop run json_loads url keys calls = Some (Inr keys, calls)"
  by (subst mde_keys_loop.simps) simp

lemma mde_keys_loop_step:
  "u \<noteq> [] \<Longrightarrow>
   mde_keys_loop run json_loads (JStr u) keys calls =
     (case mde_response run json_loads (length calls) of
        None \<Rightarrow> Some (Inr keys, calls @ [mde_call u])
      | Some payload \<Rightarrow>
          if \<not> json_truthy payload then Some (Inr keys, calls @ [mde_call u])
          else
            (case mde_page keys payload of
               Inl e \<Rightarrow> Some (Inl e, calls @ [mde_call u])
             | Inr (keys', url') \<Rightarrow> mde_keys_loop run json_loads url' keys' (calls @ [mde_call u])))"
  by (subst mde_keys_loop.simps)
     (simp add: graph_api_get_def az_def mde_response_def mde_call_def mde_page_def
        split: proc_result.splits option.splits json.splits sum.splits)

lemma mde_keys_loop_not_string:
  "json_truthy url \<Longrightarrow> \<forall>u. url \<noteq> JStr u \<Longrightarrow>
   mde_keys_loop run json_loads url keys calls = Some (Inl TypeError, calls)"
  by (subst mde_keys_loop.simps) (cases url; simp add: graph_api_get_def)

lemma page_with_next_link_iff:
  "page_with_next_link r \<longleftrightarrow>
     (\<exists>payload u. r = Some payload \<and> json_truthy payload \<and> u \<noteq> [] \<and>
                   mde_page {} payload = Inr (page_keys r, JStr u))"
proof -
  have t: "json_truthy payload" if "mde_page {} payload = Inr (ks, JStr u)" for payload ks u
    using that
    by (cases payload) (auto simp: mde_page_def items_get_def split: sum.splits option.splits)
  show ?thesis
    by (auto simp: page_with_next_link_def page_keys_def t split: option.splits sum.splits json.splits)
qed

lemma mde_keys_loop_pages:
  assumes "\<forall>k. length calls \<le> k \<and> k < j \<longrightarrow> page_with_next_link (mde_response run json_loads k)"
    and "mde_response run json_loads j = None"
    and "length calls \<le> j" and "u \<noteq> []"
  shows "\<exists>calls'. mde_keys_loop run json_loads (JStr u) keys calls =
           Some (Inr (keys \<union> (\<Union>k \<in> {length calls..<j}. page_keys (mde_response run json_loads k))),
                 calls')
         \<and> length calls' = Suc j"
  using assms
proof (induction "j - length calls" arbitrary: calls keys u)
  case 0
  then have j: "j = length calls" by simp
  with "0.prems"(2,4) show ?case
    by (simp add: mde_keys_loop_step)
next
  case (Suc d)
  let ?r = "mde_response run json_loads (length calls)"
  from Suc.hyps(2) have lt: "length calls < j" by simp
  with Suc.prems(1) have "page_with_next_link ?r" by simp
  then obtain payload u' where p: "?r = Some payload" "json_truthy payload" "u' \<noteq> []"
    "mde_page {} payload = Inr (page_keys ?r, JStr u')"
    unfolding page_with_next_link_iff by blast
  have pg: "mde_page keys payload = Inr (keys \<union> page_keys ?r, JStr u')"
    using mde_page_union [of keys payload] p(4) by simp
  have d: "d = j - length (calls @ [mde_call u])" using Suc.hyps(2) by simp
  have a1: "\<forall>k. length (calls @ [mde_call u]) \<le> k \<and> k < j \<longrightarrow>
              page_with_next_link (mde_response run json_loads k)"
    using Suc.prems(1) by simp
  have a3: "length (calls @ [mde_call u]) \<le> j" using lt by simp
  from Suc.hyps(1) [OF d a1 Suc.prems(2) a3 p(3), of "keys \<union> page_keys ?r"]
  obtain calls' where ih:
    "mde_keys_loop run json_loads (JStr u') (keys \<union> page_keys ?r) (calls @ [mde_call u]) =
       Some (Inr ((keys \<union> page_keys ?r) \<union>
               (\<Union>k \<in> {length (calls @ [mde_call u])..<j}. page_keys (mde_response run json_loads k))),
             calls')"
    "length calls' = Suc j"
    by blast
  have iv: "{length calls..<j} = insert (length calls) {Suc (length calls)..<j}"
    using lt by auto
  have "mde_keys_loop run json_loads (JStr u) keys calls =
          mde_keys_loop run json_loads (JStr u') (keys \<union> page_keys ?r) (calls @ [mde_call u])"
    using Suc.prems(4) p(1,2) pg by (simp add: mde_keys_loop_step)
  with ih iv show ?case
    by (simp add: Un_assoc)
qed

lemma mde_url_not_empty: "mde_url \<noteq> []"
  by (simp add: mde_url_def)

lemma mde_run_responses:
  "mde_response mde_run mde_loads 0 = Some mde_page0"
  "mde_response mde_run mde_loads (Suc 0) = None"
  by (simp_all add: mde_response_def mde_run_def mde_loads_def strip_def is_space_def)

lemma mde_page0_page:
  "mde_page {} mde_page0 =
     Inr ({''/subscriptions/s1/vm/web01'', ''web01''}, JStr ''https://graph.microsoft.com/next'')"
proof -
  have 1: "lower ''/Subscriptions/S1/VM/Web01'' = ''/subscriptions/s1/vm/web01''" by code_simp
  have 2: "lower (split_dot_0 ''Web01.corp.local'') = ''web01''" by code_simp
  show ?thesis
    by (auto simp add: mde_page_def mde_page0_def items_get_def add_machine_keys_def 1 2)
qed

lemma mde_page0_truthy: "json_truthy mde_page0"
  by (simp add: mde_page0_def)

lemma mde_page0_keys:
  "page_keys (Some mde_page0) = {''/subscriptions/s1/vm/web01'', ''web01''}"
  by (simp add: page_keys_def mde_page0_page)


section \<open>Lemmas about whole runs\<close>

lemma main_after_queries:
  assumes "load_cache_if_fresh (e_clock e) (e_cache e) = Inr None"
    and "graph_query_all (e_run e) (e_loads_graph e) [] vm_query GRAPH_PAGE_SIZE = Some (Inr vms, calls1)"
    and "graph_query_all (e_run e) (e_loads_graph e) calls1 nic_query GRAPH_PAGE_SIZE = Some (Inr nics, calls2)"
    and "get_mde_windows_machine_keys (e_run e) (e_loads_mde e) calls2 = Some (Inr keys, calls3)"
  shows "main e =
     Some (if vms = [] then
             Inr (print (e_dumps_indent e empty_inventory),
                  fst (save_cache (e_save_io e) (e_save_time e) (e_dump e) empty_inventory (e_cache e)),
                  calls3)
           else
             (case build_inventory keys nics vms of
                Inl err \<Rightarrow> Inl err
              | Inr inventory \<Rightarrow>
                  Inr (print (e_dumps_indent e inventory),
                       fst (save_cache (e_save_io e) (e_save_time e) (e_dump e) inventory (e_cache e)),
                       calls3)))"
  using assms by (simp add: main_def Let_def split: prod.splits sum.splits)

lemma main_vm_query_raises:
  assumes "load_cache_if_fresh (e_clock e) (e_cache e) = Inr None"
    and "graph_query_all (e_run e) (e_loads_graph e) [] vm_query GRAPH_PAGE_SIZE = Some (Inl err, calls1)"
  shows "main e = Some (Inl err)"
  using assms by (simp add: main_def)

lemma graph_query_all_one_call:
  assumes "\<not> has_token (graph_response run json_loads (length calls))"
    and "graph_response run json_loads (length calls) \<noteq> Some GraphNotObject"
  shows "graph_query_all run json_loads calls query page_size =
           Some (Inr (page_records (graph_response run json_loads (length calls))),
                 calls @ [graph_call query page_size PyNone])"
  using assms unfolding graph_query_all_def
  by (subst graph_query_loop_step)
     (auto simp: Let_def has_token_def page_records_def graph_call_def
           split: option.splits graph_json.splits)

lemma graph_query_all_not_object:
  assumes "graph_response run json_loads (length calls) = Some GraphNotObject"
  shows "graph_query_all run json_loads calls query page_size =
           Some (Inl AttributeError, calls @ [graph_call query page_size PyNone])"
  using assms unfolding graph_query_all_def
  by (subst graph_query_loop_step) (simp add: Let_def graph_call_def)

lemma sample_cache_miss: "load_cache_if_fresh (e_clock (sample_env run)) (e_cache (sample_env run)) = Inr None"
  by (simp add: sample_env_def load_cache_if_fresh_def load_cache_try_def)

lemma vm_fails_run_responses:
  "graph_response vm_fails_run sample_loads 0 = None"
  "graph_response vm_fails_run sample_loads (Suc 0) =
     Some (GraphObject
       \<lparr>get_data = Some [[''id'' \<mapsto> PyStr ''nic1'', ''privateIp'' \<mapsto> PyStr ''10.0.0.4'']],
        get_skipToken = PyNone, get_skip_token = PyNone\<rparr>)"
  "mde_response vm_fails_run mde_loads (Suc (Suc 0)) = Some mde_page0"
  "mde_response vm_fails_run mde_loads (Suc (Suc (Suc 0))) = None"
  by (simp_all add: graph_response_def mde_response_def vm_fails_run_def sample_loads_def
        mde_loads_def strip_def is_space_def)

lemma add_vm_returns:
  assumes "vm_name vm = [] \<or> vm ''publisher'' \<noteq> None"
  shows "\<exists>iv'. add_vm K M iv vm = Inr iv'"
proof (cases "vm_name vm = []")
  case True
  then show ?thesis by (simp add: add_vm_unnamed)
next
  case False
  with assms obtain p where "vm ''publisher'' = Some p" by auto
  from add_vm_grows [OF False this, of K M iv] show ?thesis by blast
qed

lemma bad_vm_run_responses:
  "graph_response bad_vm_run sample_loads 0 =
     Some (GraphObject \<lparr>get_data = Some [no_publisher_vm], get_skipToken = PyNone,
                         get_skip_token = PyNone\<rparr>)"
  "graph_response bad_vm_run sample_loads (Suc 0) = None"
  "mde_response bad_vm_run mde_loads (Suc (Suc 0)) = None"
  by (simp_all add: graph_response_def mde_response_def bad_vm_run_def sample_loads_def
        strip_def is_space_def)

lemma array_run_response: "graph_response array_run sample_loads k = Some GraphNotObject"
  by (simp add: graph_response_def array_run_def sample_loads_def strip_def is_space_def)

lemma web01_responses:
  "graph_response web01_run web01_loads_graph 0 =
     Some (GraphObject \<lparr>get_data = Some [web01_row], get_skipToken = PyNone, get_skip_token = PyNone\<rparr>)"
  "graph_response web01_run web01_loads_graph (Suc 0) =
     Some (GraphObject \<lparr>get_data = Some [], get_skipToken = PyNone, get_skip_token = PyNone\<rparr>)"
  "mde_response web01_run web01_loads_mde (Suc (Suc 0)) = Some web01_machines"
  by (simp_all add: graph_response_def mde_response_def web01_run_def web01_loads_graph_def
        web01_loads_mde_def strip_def is_space_def)

lemma web01_machines_page:
  "mde_page {} web01_machines = Inr ({''/subscriptions/s1/vm/web01'', ''win-7f3''}, JNull)"
proof -
  have 1: "lower web01_id = ''/subscriptions/s1/vm/web01''" by code_simp
  have 2: "lower (split_dot_0 ''WIN-7F3.corp.local'') = ''win-7f3''" by code_simp
  have 3: "web01_id \<noteq> []" by (simp add: web01_id_def)
  show ?thesis
    by (auto simp add: mde_page_def web01_machines_def items_get_def add_machine_keys_def 1 2 3)
qed

lemma web01_machines_truthy: "json_truthy web01_machines"
  by (simp add: web01_machines_def)

lemma web01_cache_miss: "load_cache_if_fresh (e_clock web01_env) (e_cache web01_env) = Inr None"
  by (simp add: web01_env_def load_cache_if_fresh_def load_cache_try_def)


section \<open>Lemmas about the cache\<close>

lemma cache_round_trip_and_expiry:
  fixes json_dump :: "'d \<Rightarrow> string"
  shows
  "load_cache_if_fresh now (fst (save_cache Written t json_dump doc fs)) =
      Inr (if now - t < CACHE_TTL_SECONDS then Some (json_dump doc) else None)
   \<and> CACHE_TTL_SECONDS = 300
   \<and> (json_loads (json_dump doc) = Some doc \<and> now - t < CACHE_TTL_SECONDS \<longrightarrow>
        (\<exists>s. load_cache_if_fresh now (fst (save_cache Written t json_dump doc fs)) = Inr (Some s)
             \<and> json_loads s = Some doc))
   \<and> (\<not> path_exists fs1 \<longrightarrow> load_cache_if_fresh now1 fs1 = Inr None)
   \<and> (getmtime fs2 = Inr m \<and> CACHE_TTL_SECONDS \<le> now2 - m \<longrightarrow>
        load_cache_if_fresh now2 fs2 = Inr None)
   \<and> (load_cache_try now3 fs3 = Inl e \<longrightarrow> load_cache_if_fresh now3 fs3 = Inr None)
   \<and> (\<exists>r. load_cache_if_fresh now4 fs4 = Inr r)
   \<and> (\<exists>fs'. save_cache io t4 json_dump doc4 fs4 = (fs', Inr ()))
   \<and> save_cache (OpenRaises e5) t5 json_dump doc5 fs5 = (fs5, Inr ())
   \<and> save_cache (DumpRaises e6 partial) t6 json_dump doc6 fs6 =
       (\<lparr>path_exists = True, getmtime = Inr t6, read_text = Inr partial\<rparr>, Inr ())"
  by (auto simp: load_cache_if_fresh_def load_cache_try_def save_cache_def save_cache_try_def
      CACHE_TTL_SECONDS_def split: sum.splits save_io.splits)


section \<open>The claims\<close>

text \<open>
  Claim C1 (onboarding test). The claim has a Windows machine onboarded exactly when its
  lower-cased resource id or its lower-cased name is in the key set. The loop body reads the id
  with \<^verbatim>\<open>vm.get("id")\<close>, and the VM query of \<^verbatim>\<open>main\<close> projects no \<^verbatim>\<open>id\<close> column, so the rows
  \<^verbatim>\<open>main\<close> builds have no \<^verbatim>\<open>id\<close> and the id half of the test reads the empty string. For every
  Windows row without \<^verbatim>\<open>id\<close> (with a host name and a publisher key) the flag stored under
  \<^verbatim>\<open>mde_onboarded\<close>, and with it the subgroup, is "the empty string is in the key set or the
  lower-cased name is in the key set": the resource id of the machine plays no part.

  The witness is a run of \<^verbatim>\<open>main\<close>. The endpoint lists the machine \<^verbatim>\<open>Web01\<close> under its resource
  id and under a host name that is not its Azure name; the resolver returns a key set that
  holds the lower-cased resource id; the machine lands in \<^verbatim>\<open>windows_mde_not_onboarded\<close> with
  the flag \<^verbatim>\<open>False\<close>. And with the key set that a Defender machine of DNS name
  \<^verbatim>\<open>.corp.local\<close> gives, which holds the empty string, the same row lands in
  \<^verbatim>\<open>windows_mde_onboarded\<close> although neither its id nor its name is in the key set.
\<close>

theorem row_without_id_is_matched_by_name_only:
  assumes "vm ''id'' = None" and "vm_name vm \<noteq> []"
    and "dict_get vm ''osType'' = PyStr ''Windows''" and "vm ''publisher'' = Some p"
  shows "\<exists>iv'. add_vm K M iv vm = Inr iv' \<and>
     (\<exists>meta. map_of (hostvars iv') (vm_name vm) = Some meta \<and>
        meta ''mde_onboarded'' = Some (Flag ([] \<in> K \<or> lower (vm_name vm) \<in> K))) \<and>
     windows_hosts iv' = windows_hosts iv @ [vm_name vm] \<and>
     (if [] \<in> K \<or> lower (vm_name vm) \<in> K
      then windows_mde_onboarded_hosts iv' = windows_mde_onboarded_hosts iv @ [vm_name vm]
           \<and> windows_mde_not_onboarded_hosts iv' = windows_mde_not_onboarded_hosts iv
      else windows_mde_not_onboarded_hosts iv' = windows_mde_not_onboarded_hosts iv @ [vm_name vm]
           \<and> windows_mde_onboarded_hosts iv' = windows_mde_onboarded_hosts iv)"
proof -
  from assms(1) have i: "lower (or_empty (dict_get vm ''id'')) = []"
    by (simp add: dict_get_def lower_def)
  from assms(2,3,4) show ?thesis
    by (simp add: add_vm_windows map_of_dict_set_field_same i)
qed

theorem row_without_id_is_matched_by_name_only_witness:
  "web01_row ''id'' = None \<and>
   vm_name web01_row = ''Web01'' \<and>
   dict_get web01_row ''osType'' = PyStr ''Windows'' \<and>
   web01_row ''publisher'' = Some (PyStr ''MicrosoftWindowsServer'') \<and>
   lower web01_id \<in> {''/subscriptions/s1/vm/web01'', ''win-7f3''} \<and>
   lower (vm_name web01_row) \<notin> {''/subscriptions/s1/vm/web01'', ''win-7f3''} \<and>
   (\<exists>calls1 calls2 calls3.
      graph_query_all web01_run web01_loads_graph [] vm_query GRAPH_PAGE_SIZE =
        Some (Inr [web01_row], calls1) \<and>
      graph_query_all web01_run web01_loads_graph calls1 nic_query GRAPH_PAGE_SIZE =
        Some (Inr [], calls2) \<and>
      get_mde_windows_machine_keys web01_run web01_loads_mde calls2 =
        Some (Inr {''/subscriptions/s1/vm/web01'', ''win-7f3''}, calls3) \<and>
      main web01_env =
        Some (Inr (''onboarded: ; not onboarded: Web01\<newline>'',
                   \<lparr>path_exists = True, getmtime = Inr 1000,
                      read_text = Inr ''onboarded: ; not onboarded: Web01''\<rparr>,
                   calls3))) \<and>
   (\<exists>iv'. build_inventory {''/subscriptions/s1/vm/web01'', ''win-7f3''} [] [web01_row] = Inr iv' \<and>
      (\<exists>meta. map_of (hostvars iv') ''Web01'' = Some meta \<and>
         meta ''mde_onboarded'' = Some (Flag False)) \<and>
      windows_hosts iv' = [''Web01''] \<and>
      windows_mde_onboarded_hosts iv' = [] \<and>
      windows_mde_not_onboarded_hosts iv' = [''Web01'']) \<and>
   add_machine_keys {} dot_machine = Inr {[]} \<and>
   lower (vm_name web01_row) \<notin> {[]} \<and>
   (\<exists>iv'. build_inventory {[]} [] [web01_row] = Inr iv' \<and>
      windows_mde_onboarded_hosts iv' = [''Web01''] \<and>
      windows_mde_not_onboarded_hosts iv' = [])"
proof -
  let ?K = "{''/subscriptions/s1/vm/web01'', ''win-7f3''}"
  let ?c1 = "[graph_call vm_query GRAPH_PAGE_SIZE PyNone]"
  let ?c2 = "?c1 @ [graph_call nic_query GRAPH_PAGE_SIZE PyNone]"
  let ?c3 = "?c2 @ [mde_call mde_url]"
  have i: "web01_row ''id'' = None" by (simp add: web01_row_def)
  have n: "vm_name web01_row = ''Web01''" by code_simp
  have o: "dict_get web01_row ''osType'' = PyStr ''Windows''" by code_simp
  have p: "web01_row ''publisher'' = Some (PyStr ''MicrosoftWindowsServer'')" by code_simp
  have li: "lower web01_id = ''/subscriptions/s1/vm/web01''" by code_simp
  have ln: "lower ''Web01'' = ''web01''" by code_simp
  from n have n': "vm_name web01_row \<noteq> []" by simp
  have e: "e_run web01_env = web01_run" "e_loads_graph web01_env = web01_loads_graph"
    "e_loads_mde web01_env = web01_loads_mde"
    by (simp_all add: web01_env_def)
  have q1: "graph_query_all web01_run web01_loads_graph [] vm_query GRAPH_PAGE_SIZE =
              Some (Inr [web01_row], ?c1)"
    by (subst graph_query_all_one_call)
       (simp_all add: web01_responses has_token_def page_records_def next_token_def py_or_def)
  have q2: "graph_query_all web01_run web01_loads_graph ?c1 nic_query GRAPH_PAGE_SIZE =
              Some (Inr [], ?c2)"
    by (subst graph_query_all_one_call)
       (simp_all add: web01_responses has_token_def page_records_def next_token_def py_or_def)
  have q3: "get_mde_windows_machine_keys web01_run web01_loads_mde ?c2 = Some (Inr ?K, ?c3)"
    unfolding get_mde_windows_machine_keys_def
    apply (subst mde_keys_loop_step [OF mde_url_not_empty])
    apply (simp add: web01_responses web01_machines_page web01_machines_truthy)
    apply (subst mde_keys_loop_done)
    apply simp_all
    done
  note T = row_without_id_is_matched_by_name_only [OF i n' o p]
  from T [of ?K Map.empty empty_inventory] obtain iv1 where
    a1: "add_vm ?K Map.empty empty_inventory web01_row = Inr iv1"
    and m1: "\<exists>meta. map_of (hostvars iv1) ''Web01'' = Some meta \<and>
               meta ''mde_onboarded'' = Some (Flag False)"
    and w1: "windows_hosts iv1 = [''Web01'']"
    and on1: "windows_mde_onboarded_hosts iv1 = []"
    and off1: "windows_mde_not_onboarded_hosts iv1 = [''Web01'']"
    by (auto simp: n ln empty_inventory_def)
  have b1: "build_inventory ?K [] [web01_row] = Inr iv1"
    using a1 by (simp add: build_inventory_def build_nic_ip_map_def)
  from T [of "{[]}" Map.empty empty_inventory] obtain iv2 where
    a2: "add_vm {[]} Map.empty empty_inventory web01_row = Inr iv2"
    and on2: "windows_mde_onboarded_hosts iv2 = [''Web01'']"
    and off2: "windows_mde_not_onboarded_hosts iv2 = []"
    by (auto simp: n ln empty_inventory_def)
  have b2: "build_inventory {[]} [] [web01_row] = Inr iv2"
    using a2 by (simp add: build_inventory_def build_nic_ip_map_def)
  have s1: "show_subgroups iv1 = ''onboarded: ; not onboarded: Web01''"
    by (simp add: show_subgroups_def on1 off1)
  have m: "main web01_env =
        Some (Inr (''onboarded: ; not onboarded: Web01\<newline>'',
                   \<lparr>path_exists = True, getmtime = Inr 1000,
                      read_text = Inr ''onboarded: ; not onboarded: Web01''\<rparr>,
                   ?c3))"
    using main_after_queries [of web01_env "[web01_row]" ?c1 "[]" ?c2 ?K ?c3]
      web01_cache_miss q1 q2 q3 b1
    by (simp add: e) (simp add: web01_env_def print_def save_cache_def save_cache_try_def s1)
  have d: "add_machine_keys {} dot_machine = Inr {[]}"
  proof -
    have "lower (split_dot_0 ''.corp.local'') = []" by code_simp
    then show ?thesis
      by (simp add: add_machine_keys_def dot_machine_def items_get_def)
  qed
  have k1: "lower web01_id \<in> ?K" by (simp add: li)
  have k2: "lower (vm_name web01_row) \<notin> ?K" by (simp add: n ln)
  have k3: "lower (vm_name web01_row) \<notin> {[]}" by (simp add: n ln)
  from q1 q2 q3 m have r: "\<exists>calls1 calls2 calls3.
      graph_query_all web01_run web01_loads_graph [] vm_query GRAPH_PAGE_SIZE =
        Some (Inr [web01_row], calls1) \<and>
      graph_query_all web01_run web01_loads_graph calls1 nic_query GRAPH_PAGE_SIZE =
        Some (Inr [], calls2) \<and>
      get_mde_windows_machine_keys web01_run web01_loads_mde calls2 =
        Some (Inr ?K, calls3) \<and>
      main web01_env =
        Some (Inr (''onboarded: ; not onboarded: Web01\<newline>'',
                   \<lparr>path_exists = True, getmtime = Inr 1000,
                      read_text = Inr ''onboarded: ; not onboarded: Web01''\<rparr>,
                   calls3))" by blast
  from i n o p k1 k2 r b1 m1 w1 on1 off1 d k3 b2 on2 off2 show ?thesis by blast
qed

text \<open>
  Claim C2 says that the resolver returns the empty key set when a page fails after pages that
  succeeded. The code leaves its loop by \<^verbatim>\<open>break\<close> and returns the keys it has. On the fake
  endpoint the first page gives the two keys of its machine and a next link, the second call
  times out, and the resolver returns the two keys, not the empty set.
\<close>

theorem resolver_partial_keys_counterexample:
  "mde_response mde_run mde_loads 0 = Some mde_page0 \<and>
   page_with_next_link (Some mde_page0) \<and>
   page_keys (Some mde_page0) = {''/subscriptions/s1/vm/web01'', ''web01''} \<and>
   mde_run 1 = TimeoutExpired \<and>
   get_mde_windows_machine_keys mde_run mde_loads [] =
     Some (Inr {''/subscriptions/s1/vm/web01'', ''web01''},
           [mde_call mde_url, mde_call ''https://graph.microsoft.com/next'']) \<and>
   \<not> (\<exists>calls'. get_mde_windows_machine_keys mde_run mde_loads [] = Some (Inr {}, calls'))"
proof -
  have t: "''https://graph.microsoft.com/next'' \<noteq> []" by simp
  have r: "get_mde_windows_machine_keys mde_run mde_loads [] =
     Some (Inr {''/subscriptions/s1/vm/web01'', ''web01''},
           [mde_call mde_url, mde_call ''https://graph.microsoft.com/next''])"
    unfolding get_mde_windows_machine_keys_def
    apply (subst mde_keys_loop_step [OF mde_url_not_empty])
    apply (simp add: mde_run_responses mde_page0_page mde_page0_truthy)
    apply (subst mde_keys_loop_step [OF t])
    apply (simp add: mde_run_responses)
    done
  have l: "page_with_next_link (Some mde_page0)"
    by (simp add: page_with_next_link_def mde_page0_page)
  have "mde_run 1 = TimeoutExpired" by (simp add: mde_run_def)
  with r l show ?thesis by (simp add: mde_run_responses mde_page0_keys)
qed


text \<open>
  Claim C2 as amended. Let the responses to the calls before call \<open>j\<close> be pages that
  succeeded and carry a next link, and let call \<open>j\<close> fail (a timeout, a return code other
  than zero, blank output or output that does not decode). Then the resolver returns, after
  exactly the calls up to \<open>j\<close>, the keys of the Windows machines of the pages before \<open>j\<close>:
  the partial key set, which is empty only when those pages gave no key.
\<close>

theorem resolver_keeps_keys_of_earlier_pages:
  assumes "\<forall>k. length calls \<le> k \<and> k < j \<longrightarrow> page_with_next_link (mde_response run json_loads k)"
    and "mde_response run json_loads j = None"
    and "length calls \<le> j"
  shows "\<exists>calls'. get_mde_windows_machine_keys run json_loads calls =
            Some (Inr (\<Union>k \<in> {length calls..<j}. page_keys (mde_response run json_loads k)), calls')
          \<and> length calls' = Suc j"
  using mde_keys_loop_pages [OF assms mde_url_not_empty, of "{}"]
  unfolding get_mde_windows_machine_keys_def by simp

theorem resolver_keeps_keys_of_earlier_pages_witness:
  "page_with_next_link (mde_response mde_run mde_loads 0) \<and>
   mde_response mde_run mde_loads 1 = None \<and>
   (\<exists>calls'. get_mde_windows_machine_keys mde_run mde_loads [] =
       Some (Inr {''/subscriptions/s1/vm/web01'', ''web01''}, calls') \<and> length calls' = 2)"
proof -
  have h: "page_with_next_link (mde_response mde_run mde_loads 0)"
    by (simp add: mde_run_responses page_with_next_link_def mde_page0_page)
  have a: "\<forall>k. length ([]::call list) \<le> k \<and> k < Suc 0 \<longrightarrow>
             page_with_next_link (mde_response mde_run mde_loads k)"
    using h by simp
  have l: "length ([]::call list) \<le> Suc 0" by simp
  from resolver_keeps_keys_of_earlier_pages [OF a mde_run_responses(2) l] h
  show ?thesis
    by (simp add: mde_run_responses mde_page0_keys numeral_2_eq_2)
qed

text \<open>
  Claim C3 (one group for each named record). Take a list of records in which every record
  with a host name has a publisher key (the query projects it) and no host name occurs twice.
  Then the loop returns a document in which the \<^verbatim>\<open>all\<close> group is the list of the host names
  in order, and the host name of every named record occurs exactly once in \<^verbatim>\<open>all\<close>, exactly
  once in the three groups \<^verbatim>\<open>linux\<close>, \<^verbatim>\<open>network_appliances\<close> and \<^verbatim>\<open>windows\<close> taken together,
  and exactly once among the keys of the metadata. Every host listed in any group or in the
  metadata is the non-empty host name of a record, so a record with a blank name is in no
  group and has no metadata.
\<close>

theorem each_named_vm_in_one_group:
  assumes pub: "\<forall>vm \<in> set vms. vm_name vm \<noteq> [] \<longrightarrow> vm ''publisher'' \<noteq> None"
    and dist: "distinct (host_names vms)"
  shows "\<exists>iv. build_inventory K nics vms = Inr iv \<and>
      all_hosts iv = host_names vms \<and>
      (\<forall>vm \<in> set vms. vm_name vm \<noteq> [] \<longrightarrow>
          count_list (all_hosts iv) (vm_name vm) = 1 \<and>
          count_list (linux_hosts iv @ network_appliances_hosts iv @ windows_hosts iv) (vm_name vm) = 1 \<and>
          count_list (map fst (hostvars iv)) (vm_name vm) = 1) \<and>
      (\<forall>h. h \<in> set (all_hosts iv) \<union> set (linux_hosts iv) \<union> set (network_appliances_hosts iv)
               \<union> set (windows_hosts iv) \<union> set (windows_mde_onboarded_hosts iv)
               \<union> set (windows_mde_not_onboarded_hosts iv) \<union> set (map fst (hostvars iv))
           \<longrightarrow> h \<noteq> [] \<and> (\<exists>vm \<in> set vms. vm_name vm = h))"
proof -
  from add_vms_grows [OF pub, of K "build_nic_ip_map nics" empty_inventory]
  obtain iv where iv: "build_inventory K nics vms = Inr iv"
    and g: "grows_by (host_names vms) empty_inventory iv"
    by (auto simp: build_inventory_def)
  from g have a: "all_hosts iv = host_names vms"
    and c: "\<And>x. count_list (linux_hosts iv @ network_appliances_hosts iv @ windows_hosts iv) x =
               count_list (host_names vms) x"
    and k: "set (map fst (hostvars iv)) = set (host_names vms)"
    and dk: "distinct (map fst (hostvars iv))"
    and on: "set (windows_mde_onboarded_hosts iv) \<subseteq> set (host_names vms)"
    and off: "set (windows_mde_not_onboarded_hosts iv) \<subseteq> set (host_names vms)"
    by (simp_all add: grows_by_def empty_inventory_def)
  have cnt: "\<And>x. count_list (host_names vms) x = (if x \<in> set (host_names vms) then 1 else 0)"
    using dist by (simp add: count_list_distinct)
  have cntk: "\<And>x. count_list (map fst (hostvars iv)) x = (if x \<in> set (host_names vms) then 1 else 0)"
    using dk k by (simp add: count_list_distinct)
  have mem: "\<And>vm. vm \<in> set vms \<Longrightarrow> vm_name vm \<noteq> [] \<Longrightarrow> vm_name vm \<in> set (host_names vms)"
    by (simp add: host_names_def)
  have names: "\<And>h. h \<in> set (host_names vms) \<Longrightarrow> h \<noteq> [] \<and> (\<exists>vm \<in> set vms. vm_name vm = h)"
    by (auto simp: host_names_def)
  have grp: "\<And>h. h \<in> set (linux_hosts iv) \<union> set (network_appliances_hosts iv) \<union> set (windows_hosts iv)
              \<Longrightarrow> h \<in> set (host_names vms)"
  proof -
    fix h assume "h \<in> set (linux_hosts iv) \<union> set (network_appliances_hosts iv) \<union> set (windows_hosts iv)"
    then have "h \<in> set (linux_hosts iv @ network_appliances_hosts iv @ windows_hosts iv)" by auto
    then have "count_list (linux_hosts iv @ network_appliances_hosts iv @ windows_hosts iv) h \<noteq> 0"
      by (simp only: count_list_0_iff not_not)
    with c [of h] have "count_list (host_names vms) h \<noteq> 0" by simp
    then show "h \<in> set (host_names vms)" by (simp add: count_list_0_iff)
  qed
  have p1: "\<forall>vm \<in> set vms. vm_name vm \<noteq> [] \<longrightarrow>
          count_list (all_hosts iv) (vm_name vm) = 1 \<and>
          count_list (linux_hosts iv @ network_appliances_hosts iv @ windows_hosts iv) (vm_name vm) = 1 \<and>
          count_list (map fst (hostvars iv)) (vm_name vm) = 1"
  proof (intro ballI impI)
    fix vm assume "vm \<in> set vms" "vm_name vm \<noteq> []"
    then have m: "vm_name vm \<in> set (host_names vms)" by (rule mem)
    have 1: "count_list (all_hosts iv) (vm_name vm) = 1"
      using m by (simp only: a cnt if_True)
    have 2: "count_list (linux_hosts iv @ network_appliances_hosts iv @ windows_hosts iv) (vm_name vm) = 1"
      using m by (simp only: c cnt if_True)
    have 3: "count_list (map fst (hostvars iv)) (vm_name vm) = 1"
      using m by (simp only: cntk if_True)
    from 1 2 3 show "count_list (all_hosts iv) (vm_name vm) = 1 \<and>
          count_list (linux_hosts iv @ network_appliances_hosts iv @ windows_hosts iv) (vm_name vm) = 1 \<and>
          count_list (map fst (hostvars iv)) (vm_name vm) = 1" by blast
  qed
  have p2: "\<forall>h. h \<in> set (all_hosts iv) \<union> set (linux_hosts iv) \<union> set (network_appliances_hosts iv)
               \<union> set (windows_hosts iv) \<union> set (windows_mde_onboarded_hosts iv)
               \<union> set (windows_mde_not_onboarded_hosts iv) \<union> set (map fst (hostvars iv))
           \<longrightarrow> h \<noteq> [] \<and> (\<exists>vm \<in> set vms. vm_name vm = h)"
  proof (intro allI impI)
    fix h
    assume "h \<in> set (all_hosts iv) \<union> set (linux_hosts iv) \<union> set (network_appliances_hosts iv)
               \<union> set (windows_hosts iv) \<union> set (windows_mde_onboarded_hosts iv)
               \<union> set (windows_mde_not_onboarded_hosts iv) \<union> set (map fst (hostvars iv))"
    then consider "h \<in> set (all_hosts iv)"
      | "h \<in> set (linux_hosts iv) \<union> set (network_appliances_hosts iv) \<union> set (windows_hosts iv)"
      | "h \<in> set (windows_mde_onboarded_hosts iv)"
      | "h \<in> set (windows_mde_not_onboarded_hosts iv)"
      | "h \<in> set (map fst (hostvars iv))"
      by blast
    then have "h \<in> set (host_names vms)"
    proof cases
      case 1 then show ?thesis by (simp only: a)
    next
      case 2 then show ?thesis by (rule grp)
    next
      case 3 with on show ?thesis by blast
    next
      case 4 with off show ?thesis by blast
    next
      case 5 then show ?thesis by (simp only: k)
    qed
    then show "h \<noteq> [] \<and> (\<exists>vm \<in> set vms. vm_name vm = h)" by (rule names)
  qed
  from iv a p1 p2 show ?thesis by blast
qed

theorem each_named_vm_in_one_group_witness:
  "vm_name cisco_vm \<noteq> [] \<and> cisco_vm ''publisher'' \<noteq> None \<and>
   vm_name blank_vm = [] \<and> blank_vm ''publisher'' = None \<and>
   vm_name win_vm \<noteq> [] \<and> win_vm ''publisher'' \<noteq> None \<and>
   distinct (host_names [cisco_vm, blank_vm, win_vm]) \<and>
   (\<exists>iv. build_inventory {} [] [cisco_vm, blank_vm, win_vm] = Inr iv \<and>
      all_hosts iv = [''fw1'', ''Web01''] \<and>
      count_list (linux_hosts iv @ network_appliances_hosts iv @ windows_hosts iv) ''fw1'' = 1 \<and>
      count_list (linux_hosts iv @ network_appliances_hosts iv @ windows_hosts iv) ''Web01'' = 1 \<and>
      count_list (map fst (hostvars iv)) ''fw1'' = 1 \<and>
      count_list (map fst (hostvars iv)) ''Web01'' = 1 \<and>
      [] \<notin> set (all_hosts iv) \<and> [] \<notin> set (map fst (hostvars iv)))"
proof -
  have c: "vm_name cisco_vm = ''fw1''" by code_simp
  have b: "vm_name blank_vm = []" by code_simp
  have w: "vm_name win_vm = ''Web01''" by code_simp
  have pc: "cisco_vm ''publisher'' \<noteq> None" by (simp add: cisco_vm_def)
  have pb: "blank_vm ''publisher'' = None" by (simp add: blank_vm_def)
  have pw: "win_vm ''publisher'' \<noteq> None" by (simp add: win_vm_def)
  have hn: "host_names [cisco_vm, blank_vm, win_vm] = [''fw1'', ''Web01'']"
    by (simp add: host_names_def c b w)
  have pub: "\<forall>vm \<in> set [cisco_vm, blank_vm, win_vm]. vm_name vm \<noteq> [] \<longrightarrow> vm ''publisher'' \<noteq> None"
    using pc pw b by simp
  have dist: "distinct (host_names [cisco_vm, blank_vm, win_vm])"
    by (simp add: hn)
  from each_named_vm_in_one_group [OF pub dist, of "{}" "[]"]
  obtain iv where iv: "build_inventory {} [] [cisco_vm, blank_vm, win_vm] = Inr iv"
    and a: "all_hosts iv = host_names [cisco_vm, blank_vm, win_vm]"
    and one: "\<forall>vm \<in> set [cisco_vm, blank_vm, win_vm]. vm_name vm \<noteq> [] \<longrightarrow>
          count_list (all_hosts iv) (vm_name vm) = 1 \<and>
          count_list (linux_hosts iv @ network_appliances_hosts iv @ windows_hosts iv) (vm_name vm) = 1 \<and>
          count_list (map fst (hostvars iv)) (vm_name vm) = 1"
    and only: "\<forall>h. h \<in> set (all_hosts iv) \<union> set (linux_hosts iv) \<union> set (network_appliances_hosts iv)
               \<union> set (windows_hosts iv) \<union> set (windows_mde_onboarded_hosts iv)
               \<union> set (windows_mde_not_onboarded_hosts iv) \<union> set (map fst (hostvars iv))
           \<longrightarrow> h \<noteq> [] \<and> (\<exists>vm \<in> set [cisco_vm, blank_vm, win_vm]. vm_name vm = h)"
    by blast
  from one c have 1: "count_list (linux_hosts iv @ network_appliances_hosts iv @ windows_hosts iv) ''fw1'' = 1"
    "count_list (map fst (hostvars iv)) ''fw1'' = 1" by auto
  from one w have 2: "count_list (linux_hosts iv @ network_appliances_hosts iv @ windows_hosts iv) ''Web01'' = 1"
    "count_list (map fst (hostvars iv)) ''Web01'' = 1" by auto
  from only have 3: "[] \<notin> set (all_hosts iv)" "[] \<notin> set (map fst (hostvars iv))" by blast+
  from iv a hn 1 2 3 c b w pc pb pw dist show ?thesis by simp
qed

text \<open>
  Claim C4 (the paginated client fails closed) says that the client returns the empty list on
  every failure and never raises. It does so for a timeout, a return code other than zero,
  blank output and output that does not decode. But when a call exits with status 0 and prints
  JSON that is not an object (\<^verbatim>\<open>[]\<close>, \<^verbatim>\<open>null\<close>, a number, a string), \<^verbatim>\<open>json.loads\<close> succeeds and
  \<^verbatim>\<open>payload.get("data")\<close> raises \<^verbatim>\<open>AttributeError\<close>, which nothing catches: the client raises,
  after however many pages, and a run of \<^verbatim>\<open>main\<close> whose first call prints such output ends
  with that exception. The witness is the backend whose calls print \<^verbatim>\<open>[]\<close>.
\<close>

theorem non_object_output_raises_attribute_error:
  "((\<forall>k. length calls \<le> k \<and> k < j \<longrightarrow> has_token (graph_response run json_loads k)) \<and>
    graph_response run json_loads j = Some GraphNotObject \<and> length calls \<le> j \<longrightarrow>
      (\<exists>calls'. graph_query_all run json_loads calls query page_size = Some (Inl AttributeError, calls')
         \<and> length calls' = Suc j))
   \<and> (load_cache_if_fresh (e_clock e) (e_cache e) = Inr None \<and>
       graph_response (e_run e) (e_loads_graph e) 0 = Some GraphNotObject \<longrightarrow>
         main e = Some (Inl AttributeError))"
proof -
  have 1: "\<exists>calls'. graph_query_all run json_loads calls query page_size = Some (Inl AttributeError, calls')
         \<and> length calls' = Suc j"
    if a: "\<forall>k. length calls \<le> k \<and> k < j \<longrightarrow> has_token (graph_response run json_loads k)"
      and b: "graph_response run json_loads j = Some GraphNotObject" and c: "length calls \<le> j"
  proof -
    from b have n: "\<not> has_token (graph_response run json_loads j)" by (simp add: has_token_def)
    from graph_query_loop_pages [OF a n c, of query page_size "[]" PyNone] b
    show ?thesis unfolding graph_query_all_def by auto
  qed
  have 2: "main e = Some (Inl AttributeError)"
    if "load_cache_if_fresh (e_clock e) (e_cache e) = Inr None"
      and "graph_response (e_run e) (e_loads_graph e) 0 = Some GraphNotObject"
    using that main_vm_query_raises [of e AttributeError]
      graph_query_all_not_object [of "e_run e" "e_loads_graph e" "[]" vm_query GRAPH_PAGE_SIZE]
    by simp
  from 1 2 show ?thesis by blast
qed

theorem non_object_output_raises_attribute_error_witness:
  "array_run 0 = CompletedProcess 0 ''[]'' \<and>
   sample_loads ''[]'' = Some GraphNotObject \<and>
   graph_response array_run sample_loads 0 = Some GraphNotObject \<and>
   (\<exists>calls'. graph_query_all array_run sample_loads [] vm_query GRAPH_PAGE_SIZE =
        Some (Inl AttributeError, calls') \<and> length calls' = 1) \<and>
   load_cache_if_fresh (e_clock (sample_env array_run)) (e_cache (sample_env array_run)) = Inr None \<and>
   main (sample_env array_run) = Some (Inl AttributeError)"
proof -
  have r: "graph_response array_run sample_loads 0 = Some GraphNotObject"
    by (rule array_run_response)
  have e: "e_run (sample_env array_run) = array_run" "e_loads_graph (sample_env array_run) = sample_loads"
    by (simp_all add: sample_env_def)
  note T = non_object_output_raises_attribute_error
    [of "[]" 0 array_run sample_loads vm_query GRAPH_PAGE_SIZE "sample_env array_run"]
  from T r have 1: "\<exists>calls'. graph_query_all array_run sample_loads [] vm_query GRAPH_PAGE_SIZE =
        Some (Inl AttributeError, calls') \<and> length calls' = 1" by simp
  from T r sample_cache_miss [of array_run] have 2: "main (sample_env array_run) = Some (Inl AttributeError)"
    by (simp add: e)
  have 3: "array_run 0 = CompletedProcess 0 ''[]''" by (simp add: array_run_def)
  have 4: "sample_loads ''[]'' = Some GraphNotObject" by (simp add: sample_loads_def)
  from 1 2 3 4 r sample_cache_miss [of array_run] show ?thesis by blast
qed

text \<open>
  Claim C5 (pagination ends at the first response without a token). Let the first three
  responses carry a continuation token, and let the fourth be the response that ends the
  paging: it decodes to an object with a token under neither of the two keys \<^verbatim>\<open>skipToken\<close> and
  \<^verbatim>\<open>skip_token\<close>, and it carries no record. Then the client, started with no call made, makes
  exactly four calls and returns the records of the three pages in order. In general, when the
  response to call \<open>j\<close> is the first that carries no token, the client stops after exactly
  the calls up to \<open>j\<close>; the client returns at all exactly when some response carries no
  token; and a response carries a token exactly when it decodes to an object with a string
  that is not empty under one of the two keys.
\<close>

theorem pagination_ends_at_first_response_without_token:
  "(has_token (graph_response run json_loads 0) \<and>
    has_token (graph_response run json_loads 1) \<and>
    has_token (graph_response run json_loads 2) \<and>
    graph_response run json_loads 3 = Some (GraphObject final) \<and>
    \<not> truthy (get_skipToken final) \<and> \<not> truthy (get_skip_token final) \<and>
    page_records (Some (GraphObject final)) = [] \<longrightarrow>
      (\<exists>calls'. graph_query_all run json_loads [] query page_size =
          Some (Inr (page_records (graph_response run json_loads 0) @
                     page_records (graph_response run json_loads 1) @
                     page_records (graph_response run json_loads 2)), calls')
        \<and> length calls' = 4))
   \<and> ((\<forall>k. length calls \<le> k \<and> k < j \<longrightarrow> has_token (graph_response run json_loads k)) \<and>
       \<not> has_token (graph_response run json_loads j) \<and> length calls \<le> j \<longrightarrow>
         (\<exists>out calls'. graph_query_all run json_loads calls query page_size = Some (out, calls')
            \<and> length calls' = Suc j \<and> take (length calls) calls' = calls))
   \<and> ((\<exists>y. graph_query_all run json_loads calls query page_size = Some y) \<longleftrightarrow>
        (\<exists>j\<ge>length calls. \<not> has_token (graph_response run json_loads j)))
   \<and> (has_token r \<longleftrightarrow>
        (\<exists>p. r = Some (GraphObject p) \<and> (truthy (get_skipToken p) \<or> truthy (get_skip_token p))))"
proof -
  let ?r = "graph_response run json_loads"
  have 1: "\<exists>calls'. graph_query_all run json_loads [] query page_size =
          Some (Inr (page_records (?r 0) @ page_records (?r 1) @ page_records (?r 2)), calls')
        \<and> length calls' = 4"
    if h: "has_token (?r 0)" "has_token (?r 1)" "has_token (?r 2)"
      and f: "?r 3 = Some (GraphObject final)" "\<not> truthy (get_skipToken final)"
        "\<not> truthy (get_skip_token final)" "page_records (Some (GraphObject final)) = []"
  proof -
    have a: "\<forall>k. length ([]::call list) \<le> k \<and> k < 3 \<longrightarrow> has_token (?r k)"
    proof (intro allI impI)
      fix k :: nat assume "length ([]::call list) \<le> k \<and> k < 3"
      then have "k = 0 \<or> k = 1 \<or> k = 2" by auto
      with h show "has_token (?r k)" by auto
    qed
    have b: "\<not> has_token (?r 3)"
      using f by (simp add: has_token_def next_token_def py_or_def)
    have l: "length ([]::call list) \<le> 3" by simp
    have u: "[0..<4] = [0, 1, 2, 3]" by (simp add: upt_rec eval_nat_numeral)
    from graph_query_loop_pages [OF a b l, of query page_size "[]" PyNone] f
    show ?thesis
      unfolding graph_query_all_def by (auto simp: u)
  qed
  have 2: "\<exists>out calls'. graph_query_all run json_loads calls query page_size = Some (out, calls')
            \<and> length calls' = Suc j \<and> take (length calls) calls' = calls"
    if "\<forall>k. length calls \<le> k \<and> k < j \<longrightarrow> has_token (?r k)" "\<not> has_token (?r j)" "length calls \<le> j"
    using graph_query_loop_pages [OF that, of query page_size "[]" PyNone]
    unfolding graph_query_all_def by blast
  have 3: "(\<exists>y. graph_query_all run json_loads calls query page_size = Some y) \<longleftrightarrow>
        (\<exists>j\<ge>length calls. \<not> has_token (?r j))"
  proof
    assume "\<exists>y. graph_query_all run json_loads calls query page_size = Some y"
    then show "\<exists>j\<ge>length calls. \<not> has_token (?r j)"
      unfolding graph_query_all_def using graph_query_loop_returns by blast
  next
    assume "\<exists>j\<ge>length calls. \<not> has_token (?r j)"
    then obtain j0 where j0: "j0 \<ge> length calls" "\<not> has_token (?r j0)" by blast
    define j1 where "j1 = (LEAST j. j \<ge> length calls \<and> \<not> has_token (?r j))"
    have p: "j1 \<ge> length calls \<and> \<not> has_token (?r j1)"
      unfolding j1_def by (rule LeastI [of _ j0]) (use j0 in simp)
    have m: "\<forall>k. length calls \<le> k \<and> k < j1 \<longrightarrow> has_token (?r k)"
    proof (intro allI impI)
      fix k assume k: "length calls \<le> k \<and> k < j1"
      show "has_token (?r k)"
      proof (rule ccontr)
        assume "\<not> has_token (?r k)"
        with k have "j1 \<le> k" unfolding j1_def by (intro Least_le) simp
        with k show False by simp
      qed
    qed
    from 2 [of ] graph_query_loop_pages [OF m, of query page_size "[]" PyNone] p
    show "\<exists>y. graph_query_all run json_loads calls query page_size = Some y"
      unfolding graph_query_all_def by blast
  qed
  have 4: "has_token r \<longleftrightarrow>
        (\<exists>p. r = Some (GraphObject p) \<and> (truthy (get_skipToken p) \<or> truthy (get_skip_token p)))"
    by (auto simp: has_token_def next_token_def py_or_def split: option.splits graph_json.splits)
  from 1 2 3 4 show ?thesis by blast
qed

theorem pagination_ends_at_first_response_without_token_witness:
  "graph_response paged_run paged_loads 0 =
     Some (GraphObject \<lparr>get_data = Some [[''name'' \<mapsto> PyStr ''vm0'']], get_skipToken = PyStr ''t1'',
           get_skip_token = PyNone\<rparr>) \<and>
   graph_response paged_run paged_loads 1 =
     Some (GraphObject \<lparr>get_data = Some [[''name'' \<mapsto> PyStr ''vm1'']], get_skipToken = PyNone,
           get_skip_token = PyStr ''t2''\<rparr>) \<and>
   graph_response paged_run paged_loads 2 =
     Some (GraphObject \<lparr>get_data = Some [[''name'' \<mapsto> PyStr ''vm2'']], get_skipToken = PyStr ''t3'',
           get_skip_token = PyNone\<rparr>) \<and>
   graph_response paged_run paged_loads 3 =
     Some (GraphObject \<lparr>get_data = Some [], get_skipToken = PyNone, get_skip_token = PyStr []\<rparr>) \<and>
   (\<exists>calls'. graph_query_all paged_run paged_loads [] vm_query GRAPH_PAGE_SIZE =
       Some (Inr [[''name'' \<mapsto> PyStr ''vm0''], [''name'' \<mapsto> PyStr ''vm1''], [''name'' \<mapsto> PyStr ''vm2'']],
             calls')
       \<and> length calls' = 4)"
proof -
  have r0: "graph_response paged_run paged_loads 0 =
     Some (GraphObject \<lparr>get_data = Some [[''name'' \<mapsto> PyStr ''vm0'']], get_skipToken = PyStr ''t1'',
           get_skip_token = PyNone\<rparr>)"
    by (simp add: graph_response_def paged_run_def paged_loads_def)
  have r1: "graph_response paged_run paged_loads (Suc 0) =
     Some (GraphObject \<lparr>get_data = Some [[''name'' \<mapsto> PyStr ''vm1'']], get_skipToken = PyNone,
           get_skip_token = PyStr ''t2''\<rparr>)"
    by (simp add: graph_response_def paged_run_def paged_loads_def)
  have r2: "graph_response paged_run paged_loads 2 =
     Some (GraphObject \<lparr>get_data = Some [[''name'' \<mapsto> PyStr ''vm2'']], get_skipToken = PyStr ''t3'',
           get_skip_token = PyNone\<rparr>)"
    by (simp add: graph_response_def paged_run_def paged_loads_def)
  have r3: "graph_response paged_run paged_loads 3 =
     Some (GraphObject \<lparr>get_data = Some [], get_skipToken = PyNone, get_skip_token = PyStr []\<rparr>)"
    by (simp add: graph_response_def paged_run_def paged_loads_def)
  have h: "has_token (graph_response paged_run paged_loads 0)"
    "has_token (graph_response paged_run paged_loads (Suc 0))"
    "has_token (graph_response paged_run paged_loads 2)"
    by (simp_all add: r0 r1 r2 has_token_def next_token_def py_or_def)
  from pagination_ends_at_first_response_without_token
    [of paged_run paged_loads "\<lparr>get_data = Some [], get_skipToken = PyNone, get_skip_token = PyStr []\<rparr>"
        vm_query GRAPH_PAGE_SIZE]
    h r3
  have "\<exists>calls'. graph_query_all paged_run paged_loads [] vm_query GRAPH_PAGE_SIZE =
       Some (Inr [[''name'' \<mapsto> PyStr ''vm0''], [''name'' \<mapsto> PyStr ''vm1''], [''name'' \<mapsto> PyStr ''vm2'']],
             calls')
       \<and> length calls' = 4"
    by (simp add: r0 r1 r2 page_records_def)
  with r0 r1 r2 r3 show ?thesis by simp
qed

text \<open>
  Claim C6 (an empty VM result gives the empty inventory). When no fresh cache is served and
  the VM query returns the empty list, \<^verbatim>\<open>main\<close> returns without an exception, prints the
  serialisation of the canonical empty document (empty \<^verbatim>\<open>hostvars\<close> and six groups with no
  host) and saves that document; what the interface query and the resolver returned does not
  occur in the result.
\<close>

theorem empty_vm_result_gives_empty_inventory:
  assumes "load_cache_if_fresh (e_clock e) (e_cache e) = Inr None"
    and "graph_query_all (e_run e) (e_loads_graph e) [] vm_query GRAPH_PAGE_SIZE = Some (Inr [], calls1)"
    and "graph_query_all (e_run e) (e_loads_graph e) calls1 nic_query GRAPH_PAGE_SIZE = Some (Inr nics, calls2)"
    and "get_mde_windows_machine_keys (e_run e) (e_loads_mde e) calls2 = Some (Inr keys, calls3)"
  shows "main e =
     Some (Inr (print (e_dumps_indent e
                  \<lparr>hostvars = [], all_hosts = [], linux_hosts = [], windows_hosts = [],
                   network_appliances_hosts = [], windows_mde_onboarded_hosts = [],
                   windows_mde_not_onboarded_hosts = []\<rparr>),
                fst (save_cache (e_save_io e) (e_save_time e) (e_dump e) empty_inventory (e_cache e)),
                calls3))
     \<and> empty_inventory =
         \<lparr>hostvars = [], all_hosts = [], linux_hosts = [], windows_hosts = [],
          network_appliances_hosts = [], windows_mde_onboarded_hosts = [],
          windows_mde_not_onboarded_hosts = []\<rparr>"
  using main_after_queries [OF assms] by (simp add: empty_inventory_def)

theorem empty_vm_result_gives_empty_inventory_witness:
  "\<exists>calls1 nics calls2 keys calls3.
     load_cache_if_fresh (e_clock (sample_env vm_fails_run)) (e_cache (sample_env vm_fails_run)) = Inr None \<and>
     graph_query_all vm_fails_run sample_loads [] vm_query GRAPH_PAGE_SIZE = Some (Inr [], calls1) \<and>
     graph_query_all vm_fails_run sample_loads calls1 nic_query GRAPH_PAGE_SIZE = Some (Inr nics, calls2) \<and>
     get_mde_windows_machine_keys vm_fails_run mde_loads calls2 = Some (Inr keys, calls3) \<and>
     nics = [[''id'' \<mapsto> PyStr ''nic1'', ''privateIp'' \<mapsto> PyStr ''10.0.0.4'']] \<and>
     keys = {''/subscriptions/s1/vm/web01'', ''web01''} \<and>
     length calls3 = 4 \<and>
     main (sample_env vm_fails_run) =
       Some (Inr (''\<newline>'',
                  \<lparr>path_exists = True, getmtime = Inr 1000, read_text = Inr []\<rparr>,
                  calls3))"
proof -
  let ?c1 = "[graph_call vm_query GRAPH_PAGE_SIZE PyNone]"
  let ?c2 = "?c1 @ [graph_call nic_query GRAPH_PAGE_SIZE PyNone]"
  let ?c3 = "?c2 @ [mde_call mde_url, mde_call ''https://graph.microsoft.com/next'']"
  let ?nics = "[[''id'' \<mapsto> PyStr ''nic1'', ''privateIp'' \<mapsto> PyStr ''10.0.0.4'']]"
  let ?e = "sample_env vm_fails_run"
  have e: "e_run ?e = vm_fails_run" "e_loads_graph ?e = sample_loads" "e_loads_mde ?e = mde_loads"
    by (simp_all add: sample_env_def)
  have q1: "graph_query_all vm_fails_run sample_loads [] vm_query GRAPH_PAGE_SIZE = Some (Inr [], ?c1)"
    by (subst graph_query_all_one_call)
       (simp_all add: vm_fails_run_responses has_token_def page_records_def)
  have q2: "graph_query_all vm_fails_run sample_loads ?c1 nic_query GRAPH_PAGE_SIZE = Some (Inr ?nics, ?c2)"
    by (subst graph_query_all_one_call)
       (simp_all add: vm_fails_run_responses has_token_def page_records_def next_token_def py_or_def)
  have t: "''https://graph.microsoft.com/next'' \<noteq> []" by simp
  have q3: "get_mde_windows_machine_keys vm_fails_run mde_loads ?c2 =
              Some (Inr {''/subscriptions/s1/vm/web01'', ''web01''}, ?c3)"
    unfolding get_mde_windows_machine_keys_def
    apply (subst mde_keys_loop_step [OF mde_url_not_empty])
    apply (simp add: vm_fails_run_responses mde_page0_page mde_page0_truthy)
    apply (subst mde_keys_loop_step [OF t])
    apply (simp add: vm_fails_run_responses)
    done
  have m: "main ?e =
       Some (Inr (''\<newline>'',
                  \<lparr>path_exists = True, getmtime = Inr 1000, read_text = Inr []\<rparr>,
                  ?c3))"
    using empty_vm_result_gives_empty_inventory [of ?e ?c1 ?nics ?c2
        "{''/subscriptions/s1/vm/web01'', ''web01''}" ?c3]
      sample_cache_miss [of vm_fails_run] q1 q2 q3
    by (simp add: e) (simp add: sample_env_def print_def save_cache_def save_cache_try_def empty_inventory_def)
  have l: "length ?c3 = 4" by simp
  from sample_cache_miss [of vm_fails_run] q1 q2 q3 m l show ?thesis by blast
qed

text \<open>
  Claim C7 (appliance classification). A record with \<^verbatim>\<open>osType\<close> equal to \<^verbatim>\<open>"Linux"\<close>, a host
  name that is not empty and a value \<open>p\<close> under \<^verbatim>\<open>"publisher"\<close> is put in
  \<^verbatim>\<open>network_appliances\<close> exactly when the lower-cased publisher contains one of the eight
  denylist entries as a substring, and in \<^verbatim>\<open>linux\<close> otherwise; it is never put in both, and
  not in \<^verbatim>\<open>windows\<close>. The witness is the publisher \<^verbatim>\<open>"Cisco Systems, Inc."\<close>, which goes to
  \<^verbatim>\<open>network_appliances\<close> and not to \<^verbatim>\<open>linux\<close>.
\<close>

theorem linux_publisher_denylist:
  assumes "vm_name vm \<noteq> []" and "dict_get vm ''osType'' = PyStr ''Linux''"
    and "vm ''publisher'' = Some p"
  shows "\<exists>iv'. add_vm K M iv vm = Inr iv' \<and>
     (if (\<exists>d \<in> {''citrix'', ''barracudanetworks'', ''f5-networks'', ''paloaltonetworks'',
                  ''fortinet'', ''sophos'', ''checkpoint'', ''cisco''}.
             sublist d (lower (or_empty p)))
      then network_appliances_hosts iv' = network_appliances_hosts iv @ [vm_name vm]
           \<and> linux_hosts iv' = linux_hosts iv
      else linux_hosts iv' = linux_hosts iv @ [vm_name vm]
           \<and> network_appliances_hosts iv' = network_appliances_hosts iv)
     \<and> windows_hosts iv' = windows_hosts iv"
proof (cases "is_appliance_publisher p")
  case True
  with assms is_appliance_publisher_iff [of p] show ?thesis
    by (simp add: add_vm_appliance)
next
  case False
  with assms is_appliance_publisher_iff [of p] show ?thesis
    by (simp add: add_vm_linux)
qed

theorem linux_publisher_denylist_witness:
  "vm_name cisco_vm \<noteq> [] \<and> dict_get cisco_vm ''osType'' = PyStr ''Linux'' \<and>
   cisco_vm ''publisher'' = Some (PyStr ''Cisco Systems, Inc.'') \<and>
   (\<exists>iv'. add_vm {} Map.empty empty_inventory cisco_vm = Inr iv' \<and>
      network_appliances_hosts iv' = [''fw1''] \<and> linux_hosts iv' = [])"
proof -
  have n: "vm_name cisco_vm = ''fw1''" by code_simp
  have o: "dict_get cisco_vm ''osType'' = PyStr ''Linux''" by code_simp
  have p: "cisco_vm ''publisher'' = Some (PyStr ''Cisco Systems, Inc.'')" by code_simp
  have l: "lower ''Cisco Systems, Inc.'' = ''cisco systems, inc.''" by code_simp
  have s: "sublist ''cisco'' ''cisco systems, inc.''" by code_simp
  from n have n': "vm_name cisco_vm \<noteq> []" by simp
  show ?thesis
    using linux_publisher_denylist [OF n' o p, of "{}" Map.empty empty_inventory] n o p l s
    by (auto simp: empty_inventory_def)
qed

text \<open>
  Claim C8 says that a save that fails is a no-op. \<^verbatim>\<open>save_cache\<close> opens the cache file with mode
  \<^verbatim>\<open>"w"\<close>, which empties it, and writes into it in place; the exception of a write that fails
  after that is swallowed. So a save that fails after it opened the file returns normally and
  leaves the file, whatever it held, with what had been written and with a new modification
  time, and every load within the next 300 seconds returns that text. In the witness a cache
  written at time 900 holds \<^verbatim>\<open>old\<close> and is fresh at time 1000; a save at time 1000 fails after
  one character; the file is no longer what it was, and a load at time 1001 returns that one
  character.
\<close>

theorem failed_write_leaves_truncated_cache:
  "save_cache (DumpRaises e partial) t json_dump doc fs =
     (\<lparr>path_exists = True, getmtime = Inr t, read_text = Inr partial\<rparr>, Inr ())
   \<and> (now - t < CACHE_TTL_SECONDS \<longrightarrow>
        load_cache_if_fresh now (fst (save_cache (DumpRaises e partial) t json_dump doc fs))
          = Inr (Some partial))"
  by (simp add: load_cache_if_fresh_def load_cache_try_def save_cache_def save_cache_try_def)

theorem failed_write_leaves_truncated_cache_witness:
  "load_cache_if_fresh 1000 \<lparr>path_exists = True, getmtime = Inr 900, read_text = Inr ''old''\<rparr>
     = Inr (Some ''old'') \<and>
   save_cache (DumpRaises OSError ''{'') 1000 (\<lambda>d::unit. ''{}'') ()
       \<lparr>path_exists = True, getmtime = Inr 900, read_text = Inr ''old''\<rparr>
     = (\<lparr>path_exists = True, getmtime = Inr 1000, read_text = Inr ''{''\<rparr>, Inr ()) \<and>
   fst (save_cache (DumpRaises OSError ''{'') 1000 (\<lambda>d::unit. ''{}'') ()
       \<lparr>path_exists = True, getmtime = Inr 900, read_text = Inr ''old''\<rparr>)
     \<noteq> \<lparr>path_exists = True, getmtime = Inr 900, read_text = Inr ''old''\<rparr> \<and>
   (1001::real) - 1000 < CACHE_TTL_SECONDS \<and>
   load_cache_if_fresh 1001
     (fst (save_cache (DumpRaises OSError ''{'') 1000 (\<lambda>d::unit. ''{}'') ()
       \<lparr>path_exists = True, getmtime = Inr 900, read_text = Inr ''old''\<rparr>))
     = Inr (Some ''{'')"
proof -
  have 1: "load_cache_if_fresh 1000 \<lparr>path_exists = True, getmtime = Inr 900, read_text = Inr ''old''\<rparr>
     = Inr (Some ''old'')"
    by (simp add: load_cache_if_fresh_def load_cache_try_def CACHE_TTL_SECONDS_def)
  have 2: "(1001::real) - 1000 < CACHE_TTL_SECONDS" by (simp add: CACHE_TTL_SECONDS_def)
  note T = failed_write_leaves_truncated_cache
    [of OSError "''{''" 1000 "\<lambda>d::unit. ''{}''" "()"
        "\<lparr>path_exists = True, getmtime = Inr 900, read_text = Inr ''old''\<rparr>" 1001]
  from T have 3: "save_cache (DumpRaises OSError ''{'') 1000 (\<lambda>d::unit. ''{}'') ()
       \<lparr>path_exists = True, getmtime = Inr 900, read_text = Inr ''old''\<rparr>
     = (\<lparr>path_exists = True, getmtime = Inr 1000, read_text = Inr ''{''\<rparr>, Inr ())"
    by (rule conjunct1)
  from T 2 have 4: "load_cache_if_fresh 1001
     (fst (save_cache (DumpRaises OSError ''{'') 1000 (\<lambda>d::unit. ''{}'') ()
       \<lparr>path_exists = True, getmtime = Inr 900, read_text = Inr ''old''\<rparr>))
     = Inr (Some ''{'')"
    by blast
  have 5: "fst (save_cache (DumpRaises OSError ''{'') 1000 (\<lambda>d::unit. ''{}'') ()
       \<lparr>path_exists = True, getmtime = Inr 900, read_text = Inr ''old''\<rparr>)
     \<noteq> \<lparr>path_exists = True, getmtime = Inr 900, read_text = Inr ''old''\<rparr>"
    unfolding 3 by simp
  from 1 2 3 4 5 show ?thesis by blast
qed

text \<open>
  Claim C9 (a record without a publisher key aborts the run). The loop body raises exactly for
  a record that has a host name and no \<^verbatim>\<open>publisher\<close> key, and what it raises is \<^verbatim>\<open>KeyError\<close>; for
  every other record, whichever of its other fields are missing, it returns. A list that
  holds such a record makes the whole loop end with \<^verbatim>\<open>KeyError\<close>, and a run of \<^verbatim>\<open>main\<close> whose
  VM query returns such a list ends with \<^verbatim>\<open>KeyError\<close>: nothing is printed and nothing is saved.
\<close>

theorem missing_publisher_raises_key_error:
  "(add_vm K M iv vm = Inl err \<longleftrightarrow>
      err = KeyError \<and> vm_name vm \<noteq> [] \<and> vm ''publisher'' = None)
   \<and> ((\<exists>vm \<in> set vms. vm_name vm \<noteq> [] \<and> vm ''publisher'' = None) \<longrightarrow>
        build_inventory K nics vms = Inl KeyError)
   \<and> (load_cache_if_fresh (e_clock e) (e_cache e) = Inr None \<and>
      graph_query_all (e_run e) (e_loads_graph e) [] vm_query GRAPH_PAGE_SIZE = Some (Inr vms, calls1) \<and>
      graph_query_all (e_run e) (e_loads_graph e) calls1 nic_query GRAPH_PAGE_SIZE = Some (Inr nics, calls2) \<and>
      get_mde_windows_machine_keys (e_run e) (e_loads_mde e) calls2 = Some (Inr K, calls3) \<and>
      (\<exists>vm \<in> set vms. vm_name vm \<noteq> [] \<and> vm ''publisher'' = None) \<longrightarrow>
        main e = Some (Inl KeyError))"
proof -
  have 1: "add_vm K M iv vm = Inl err \<longleftrightarrow>
      err = KeyError \<and> vm_name vm \<noteq> [] \<and> vm ''publisher'' = None"
  proof (cases "vm_name vm \<noteq> [] \<and> vm ''publisher'' = None")
    case True
    then show ?thesis by (auto simp: add_vm_no_publisher)
  next
    case False
    then have "vm_name vm = [] \<or> vm ''publisher'' \<noteq> None" by auto
    from add_vm_returns [OF this, of K M iv] False show ?thesis by auto
  qed
  have 2: "(\<exists>vm \<in> set vms. vm_name vm \<noteq> [] \<and> vm ''publisher'' = None) \<longrightarrow>
        build_inventory K nics vms = Inl KeyError"
    by (simp add: build_inventory_def add_vms_no_publisher)
  have 3: "load_cache_if_fresh (e_clock e) (e_cache e) = Inr None \<and>
      graph_query_all (e_run e) (e_loads_graph e) [] vm_query GRAPH_PAGE_SIZE = Some (Inr vms, calls1) \<and>
      graph_query_all (e_run e) (e_loads_graph e) calls1 nic_query GRAPH_PAGE_SIZE = Some (Inr nics, calls2) \<and>
      get_mde_windows_machine_keys (e_run e) (e_loads_mde e) calls2 = Some (Inr K, calls3) \<and>
      (\<exists>vm \<in> set vms. vm_name vm \<noteq> [] \<and> vm ''publisher'' = None) \<longrightarrow>
        main e = Some (Inl KeyError)"
  proof (intro impI, elim conjE)
    assume a: "load_cache_if_fresh (e_clock e) (e_cache e) = Inr None"
      "graph_query_all (e_run e) (e_loads_graph e) [] vm_query GRAPH_PAGE_SIZE = Some (Inr vms, calls1)"
      "graph_query_all (e_run e) (e_loads_graph e) calls1 nic_query GRAPH_PAGE_SIZE = Some (Inr nics, calls2)"
      "get_mde_windows_machine_keys (e_run e) (e_loads_mde e) calls2 = Some (Inr K, calls3)"
      and b: "\<exists>vm \<in> set vms. vm_name vm \<noteq> [] \<and> vm ''publisher'' = None"
    from b have ne: "vms \<noteq> []" by auto
    from b 2 have k: "build_inventory K nics vms = Inl KeyError" by blast
    from main_after_queries [OF a] ne k show "main e = Some (Inl KeyError)" by simp
  qed
  from 1 2 3 show ?thesis by blast
qed

theorem missing_publisher_raises_key_error_witness:
  "vm_name no_publisher_vm \<noteq> [] \<and> no_publisher_vm ''publisher'' = None \<and>
   add_vm {} Map.empty empty_inventory no_publisher_vm = Inl KeyError \<and>
   build_inventory {} [] [cisco_vm, no_publisher_vm, win_vm] = Inl KeyError \<and>
   (\<exists>calls1 calls2 calls3.
      load_cache_if_fresh (e_clock (sample_env bad_vm_run)) (e_cache (sample_env bad_vm_run)) = Inr None \<and>
      graph_query_all bad_vm_run sample_loads [] vm_query GRAPH_PAGE_SIZE = Some (Inr [no_publisher_vm], calls1) \<and>
      graph_query_all bad_vm_run sample_loads calls1 nic_query GRAPH_PAGE_SIZE = Some (Inr [], calls2) \<and>
      get_mde_windows_machine_keys bad_vm_run mde_loads calls2 = Some (Inr {}, calls3)) \<and>
   main (sample_env bad_vm_run) = Some (Inl KeyError)"
proof -
  let ?c1 = "[graph_call vm_query GRAPH_PAGE_SIZE PyNone]"
  let ?c2 = "?c1 @ [graph_call nic_query GRAPH_PAGE_SIZE PyNone]"
  let ?c3 = "?c2 @ [mde_call mde_url]"
  let ?e = "sample_env bad_vm_run"
  have e: "e_run ?e = bad_vm_run" "e_loads_graph ?e = sample_loads" "e_loads_mde ?e = mde_loads"
    by (simp_all add: sample_env_def)
  have n: "vm_name no_publisher_vm = ''db1''" by code_simp
  then have n': "vm_name no_publisher_vm \<noteq> []" by simp
  have p: "no_publisher_vm ''publisher'' = None" by (simp add: no_publisher_vm_def)
  have q1: "graph_query_all bad_vm_run sample_loads [] vm_query GRAPH_PAGE_SIZE =
              Some (Inr [no_publisher_vm], ?c1)"
    by (subst graph_query_all_one_call)
       (simp_all add: bad_vm_run_responses has_token_def page_records_def next_token_def py_or_def)
  have q2: "graph_query_all bad_vm_run sample_loads ?c1 nic_query GRAPH_PAGE_SIZE = Some (Inr [], ?c2)"
    by (subst graph_query_all_one_call)
       (simp_all add: bad_vm_run_responses has_token_def page_records_def)
  have q3: "get_mde_windows_machine_keys bad_vm_run mde_loads ?c2 = Some (Inr {}, ?c3)"
    unfolding get_mde_windows_machine_keys_def
    by (subst mde_keys_loop_step [OF mde_url_not_empty]) (simp add: bad_vm_run_responses)
  note T = missing_publisher_raises_key_error
  from T [where K = "{}" and M = Map.empty and iv = empty_inventory and vm = no_publisher_vm
      and err = KeyError] n' p
  have 1: "add_vm {} Map.empty empty_inventory no_publisher_vm = Inl KeyError" by simp
  from T [where K = "{}" and vms = "[cisco_vm, no_publisher_vm, win_vm]" and nics = "[]"] n' p
  have 2: "build_inventory {} [] [cisco_vm, no_publisher_vm, win_vm] = Inl KeyError" by simp
  from T [where K = "{}" and vms = "[no_publisher_vm]" and nics = "[]" and e = ?e
      and ?calls1.0 = ?c1 and ?calls2.0 = ?c2 and ?calls3.0 = ?c3]
    sample_cache_miss [of bad_vm_run] q1 q2 q3 n' p
  have 3: "main ?e = Some (Inl KeyError)" by (simp add: e)
  from n' p 1 2 3 sample_cache_miss [of bad_vm_run] q1 q2 q3 show ?thesis by blast
qed

text \<open>
  Claim C10 (the fallback branch). A record with a host name and a publisher key whose
  \<^verbatim>\<open>osType\<close> is neither \<^verbatim>\<open>"Linux"\<close> nor \<^verbatim>\<open>"Windows"\<close> is appended to \<^verbatim>\<open>windows\<close>; the loop body
  leaves \<^verbatim>\<open>windows_mde_onboarded\<close> and \<^verbatim>\<open>windows_mde_not_onboarded\<close> as they were, and the
  metadata it stores for the host has no \<^verbatim>\<open>mde_onboarded\<close> key. So in the document built from
  this record alone the host is in \<^verbatim>\<open>windows\<close> and in neither of the two onboarding groups.
\<close>

theorem other_os_type_falls_back_to_windows:
  assumes "vm_name vm \<noteq> []" and "vm ''publisher'' = Some p"
    and "dict_get vm ''osType'' \<noteq> PyStr ''Linux''"
    and "dict_get vm ''osType'' \<noteq> PyStr ''Windows''"
  shows "(\<exists>iv'. add_vm K M iv vm = Inr iv' \<and>
            windows_hosts iv' = windows_hosts iv @ [vm_name vm] \<and>
            windows_mde_onboarded_hosts iv' = windows_mde_onboarded_hosts iv \<and>
            windows_mde_not_onboarded_hosts iv' = windows_mde_not_onboarded_hosts iv \<and>
            (\<exists>meta. map_of (hostvars iv') (vm_name vm) = Some meta \<and> meta ''mde_onboarded'' = None))
       \<and> (\<exists>doc. build_inventory K nics [vm] = Inr doc \<and>
            vm_name vm \<in> set (windows_hosts doc) \<and>
            vm_name vm \<notin> set (windows_mde_onboarded_hosts doc) \<and>
            vm_name vm \<notin> set (windows_mde_not_onboarded_hosts doc) \<and>
            (\<exists>meta. map_of (hostvars doc) (vm_name vm) = Some meta \<and> meta ''mde_onboarded'' = None))"
proof -
  have m: "base_meta M' vm ''mde_onboarded'' = None" for M'
    by (simp add: base_meta_def)
  have 1: "\<exists>iv'. add_vm K M iv vm = Inr iv' \<and>
            windows_hosts iv' = windows_hosts iv @ [vm_name vm] \<and>
            windows_mde_onboarded_hosts iv' = windows_mde_onboarded_hosts iv \<and>
            windows_mde_not_onboarded_hosts iv' = windows_mde_not_onboarded_hosts iv \<and>
            (\<exists>meta. map_of (hostvars iv') (vm_name vm) = Some meta \<and> meta ''mde_onboarded'' = None)"
    using assms by (simp add: add_vm_other m)
  have 2: "\<exists>doc. build_inventory K nics [vm] = Inr doc \<and>
            vm_name vm \<in> set (windows_hosts doc) \<and>
            vm_name vm \<notin> set (windows_mde_onboarded_hosts doc) \<and>
            vm_name vm \<notin> set (windows_mde_not_onboarded_hosts doc) \<and>
            (\<exists>meta. map_of (hostvars doc) (vm_name vm) = Some meta \<and> meta ''mde_onboarded'' = None)"
    using assms by (simp add: build_inventory_def add_vm_other m empty_inventory_def)
  from 1 2 show ?thesis by blast
qed

theorem other_os_type_falls_back_to_windows_witness:
  "vm_name other_vm \<noteq> [] \<and> other_vm ''publisher'' = Some (PyStr ''Canonical'') \<and>
   dict_get other_vm ''osType'' = PyNone \<and>
   (\<exists>iv'. add_vm {''appl1''} Map.empty empty_inventory other_vm = Inr iv' \<and>
      windows_hosts iv' = [''appl1''] \<and>
      windows_mde_onboarded_hosts iv' = [] \<and>
      windows_mde_not_onboarded_hosts iv' = [] \<and>
      (\<exists>meta. map_of (hostvars iv') ''appl1'' = Some meta \<and> meta ''mde_onboarded'' = None)) \<and>
   (\<exists>doc. build_inventory {''appl1''} [] [other_vm] = Inr doc \<and>
      ''appl1'' \<in> set (windows_hosts doc) \<and>
      ''appl1'' \<notin> set (windows_mde_onboarded_hosts doc) \<and>
      ''appl1'' \<notin> set (windows_mde_not_onboarded_hosts doc))"
proof -
  have n: "vm_name other_vm = ''appl1''" by code_simp
  then have n': "vm_name other_vm \<noteq> []" by simp
  have p: "other_vm ''publisher'' = Some (PyStr ''Canonical'')" by (simp add: other_vm_def)
  have o: "dict_get other_vm ''osType'' = PyNone" by (simp add: other_vm_def dict_get_def)
  then have o1: "dict_get other_vm ''osType'' \<noteq> PyStr ''Linux''"
    and o2: "dict_get other_vm ''osType'' \<noteq> PyStr ''Windows''" by simp_all
  have e: "windows_hosts empty_inventory = []" "windows_mde_onboarded_hosts empty_inventory = []"
    "windows_mde_not_onboarded_hosts empty_inventory = []"
    by (simp_all add: empty_inventory_def)
  from other_os_type_falls_back_to_windows [OF n' p o1 o2, of "{''appl1''}" Map.empty empty_inventory "[]"]
  have "(\<exists>iv'. add_vm {''appl1''} Map.empty empty_inventory other_vm = Inr iv' \<and>
      windows_hosts iv' = [''appl1''] \<and>
      windows_mde_onboarded_hosts iv' = [] \<and>
      windows_mde_not_onboarded_hosts iv' = [] \<and>
      (\<exists>meta. map_of (hostvars iv') ''appl1'' = Some meta \<and> meta ''mde_onboarded'' = None)) \<and>
   (\<exists>doc. build_inventory {''appl1''} [] [other_vm] = Inr doc \<and>
      ''appl1'' \<in> set (windows_hosts doc) \<and>
      ''appl1'' \<notin> set (windows_mde_onboarded_hosts doc) \<and>
      ''appl1'' \<notin> set (windows_mde_not_onboarded_hosts doc))"
    unfolding n e by auto
  with n' p o show ?thesis by blast
qed

end
